theory Spec2Isabelle
  imports Complex_Main "HOL-Library.Word" "HOL-Library.Sublist" "HOL-Library.Log_Nat"
begin

section \<open>JavaScript strings\<close>

text \<open>
  A JavaScript string is a sequence of 16-bit code units. Equality, \<open><\<close>, \<open>slice\<close>,
  \<open>includes\<close> and \<open>trim\<close> all work on code units, so the embedding keeps them as words
  of 16 bits. ASCII literals of the source are written \<open>js ''...''\<close>; the Japanese labels
  are written by their code units.
\<close>

type_synonym jschar = "16 word"
type_synonym jsstring = "jschar list"

definition js :: "string \<Rightarrow> jsstring" where
  "js s = map of_char s"

text \<open>The relational operator \<open>a < b\<close> on two strings: code units, left to right.\<close>

fun js_lt :: "jsstring \<Rightarrow> jsstring \<Rightarrow> bool" where
  "js_lt [] [] = False"
| "js_lt [] (y # ys) = True"
| "js_lt (x # xs) [] = False"
| "js_lt (x # xs) (y # ys) = (if x = y then js_lt xs ys else x < y)"

text \<open>\<open>target.includes(q)\<close>: \<open>q\<close> occurs in \<open>target\<close> as a contiguous run.\<close>

fun js_includes :: "jsstring \<Rightarrow> jsstring \<Rightarrow> bool" where
  "js_includes [] q = (q = [])"
| "js_includes (c # cs) q = (prefix q (c # cs) \<or> js_includes cs q)"

text \<open>\<open>value?.slice(0, 7) || ''\<close> on a string value.\<close>

definition toMonth :: "jsstring \<Rightarrow> jsstring" where
  "toMonth v = take 7 v"

section \<open>Data model\<close>

text \<open>
  A row of the \<open>transactions\<close> table as the client receives it. \<open>note\<close> is a nullable
  column; \<open>amount\<close> is an \<open>integer\<close> column, held by the client as a number.
\<close>

record transaction =
  t_date :: jsstring
  t_amount :: int
  t_type :: jsstring
  t_purpose :: jsstring
  t_category :: jsstring
  t_note :: "jsstring option"

text \<open>The \<open>filters\<close> state of the component.\<close>

record filters =
  f_type :: jsstring
  f_purpose :: jsstring
  f_category :: jsstring
  f_query :: jsstring
  f_dateFrom :: jsstring
  f_dateTo :: jsstring

definition initial_filters :: filters where
  "initial_filters =
     \<lparr>f_type = js ''all'', f_purpose = js ''all'', f_category = js ''all'',
      f_query = [], f_dateFrom = [], f_dateTo = []\<rparr>"

section \<open>Filter engine\<close>

text \<open>\<open>`${item.note || ''}`\<close>: a null note reads as the empty string.\<close>

definition note_text :: "transaction \<Rightarrow> jsstring" where
  "note_text item = (case t_note item of None \<Rightarrow> [] | Some n \<Rightarrow> n)"

text \<open>
  The callback of \<open>filteredItems\<close>, one early \<open>return false\<close> after the other. The
  runtime's \<open>toLowerCase\<close> (the Unicode case mapping) is the parameter \<open>lower\<close>.
\<close>

definition item_passes :: "(jsstring \<Rightarrow> jsstring) \<Rightarrow> filters \<Rightarrow> transaction \<Rightarrow> bool" where
  "item_passes lower f item =
     (if f_type f \<noteq> js ''all'' \<and> t_type item \<noteq> f_type f then False
      else if f_purpose f \<noteq> js ''all'' \<and> t_type item = js ''expense''
              \<and> t_purpose item \<noteq> f_purpose f then False
      else if f_category f \<noteq> js ''all'' \<and> t_category item \<noteq> f_category f then False
      else if f_query f \<noteq> [] \<and> \<not> js_includes (lower (note_text item)) (lower (f_query f))
        then False
      else if f_dateFrom f \<noteq> [] \<and> js_lt (t_date item) (f_dateFrom f) then False
      else if f_dateTo f \<noteq> [] \<and> js_lt (f_dateTo f) (t_date item) then False
      else True)"

definition monthItems :: "transaction list \<Rightarrow> jsstring \<Rightarrow> transaction list" where
  "monthItems transactions month = filter (\<lambda>item. toMonth (t_date item) = month) transactions"

definition filteredItems ::
  "(jsstring \<Rightarrow> jsstring) \<Rightarrow> filters \<Rightarrow> transaction list \<Rightarrow> transaction list" where
  "filteredItems lower f items = filter (item_passes lower f) items"

text \<open>ASCII lower-casing, one instance of \<open>lower\<close> used on concrete inputs.\<close>

definition lower_ascii :: "jsstring \<Rightarrow> jsstring" where
  "lower_ascii s = map (\<lambda>c. if 0x41 \<le> c \<and> c \<le> 0x5A then c + 0x20 else c) s"

section \<open>Filter corrections\<close>

text \<open>
  The income categories and the default category list of the source, Japanese words
  written by their code units.
\<close>

definition incomeCategories :: "jsstring list" where
  "incomeCategories = [[0x52B4, 0x50CD], [0x6295, 0x8CC7, 0x76CA], [0x305D, 0x306E, 0x4ED6]]"

definition defaultCategories :: "jsstring list" where
  "defaultCategories =
     [[0x98DF, 0x8CBB], [0x4F4F, 0x5C45], [0x4EA4, 0x901A], [0x5149, 0x71B1, 0x8CBB],
      [0x901A, 0x4FE1], [0x65E5, 0x7528, 0x54C1], [0x533B, 0x7642], [0x5A2F, 0x697D],
      [0x6559, 0x80B2], [0x305D, 0x306E, 0x4ED6]]"

text \<open>
  The effect on \<open>[filters.type, filters.category, filters.purpose, categories]\<close>. Its three
  conditions read the \<open>filters\<close> of the render that scheduled it; each \<open>setFilters\<close>
  queues an updater \<open>prev \<mapsto> {...prev, field: 'all'}\<close>, and the updaters run in order on
  the state.
\<close>

definition filterCorrections :: "jsstring list \<Rightarrow> filters \<Rightarrow> filters" where
  "filterCorrections categories fl =
     (let u1 = (if f_type fl \<noteq> js ''expense'' \<and> f_purpose fl \<noteq> js ''all''
                then (\<lambda>prev. prev\<lparr>f_purpose := js ''all''\<rparr>) else (\<lambda>prev. prev));
          u2 = (if f_type fl = js ''income'' \<and> f_category fl \<noteq> js ''all''
                   \<and> f_category fl \<notin> set incomeCategories
                then (\<lambda>prev. prev\<lparr>f_category := js ''all''\<rparr>) else (\<lambda>prev. prev));
          u3 = (if f_type fl = js ''expense'' \<and> f_category fl \<noteq> js ''all''
                   \<and> f_category fl \<notin> set categories
                then (\<lambda>prev. prev\<lparr>f_category := js ''all''\<rparr>) else (\<lambda>prev. prev))
      in u3 (u2 (u1 fl)))"

text \<open>\<open>Array.from(new Set(xs))\<close>: the first occurrence of every element, in order.\<close>

fun array_from_set :: "'a list \<Rightarrow> 'a list" where
  "array_from_set [] = []"
| "array_from_set (x # xs) = x # filter (\<lambda>y. y \<noteq> x) (array_from_set xs)"

definition filterCategoryOptions :: "jsstring list \<Rightarrow> filters \<Rightarrow> jsstring list" where
  "filterCategoryOptions categories fl =
     (if f_type fl = js ''income'' then incomeCategories
      else if f_type fl = js ''expense'' then categories
      else array_from_set (categories @ incomeCategories))"

section \<open>Values and plain objects\<close>

text \<open>
  The budget code keeps its numbers in plain objects (\<open>{}\<close>) keyed by category name,
  and reads them with \<open>obj[name] || 0\<close>. A plain object inherits the members of
  \<open>Object.prototype\<close>, so a read of a name that is not an own property gives the
  inherited member when the name is one of these, and \<open>undefined\<close> otherwise.
\<close>

definition object_prototype_names :: "jsstring list" where
  "object_prototype_names =
     map js [''constructor'', ''__defineGetter__'', ''__defineSetter__'', ''hasOwnProperty'',
             ''__lookupGetter__'', ''__lookupSetter__'', ''isPrototypeOf'',
             ''propertyIsEnumerable'', ''toString'', ''valueOf'', ''__proto__'',
             ''toLocaleString'']"

text \<open>
  The primitive values the budget code computes and stores: an integer number (amounts are
  \<open>integer\<close> columns; double precision adds and subtracts integers exactly below
  \<open>2\<^sup>5\<^sup>3\<close>), \<open>NaN\<close>, and a string that \<open>+\<close> built from an inherited member. Such a
  string holds the text of the member (\<open>function Object() { [native code] }\<close>,
  \<open>[object Object]\<close>), so it is neither empty nor a numeral; its characters are not
  modelled.
\<close>

datatype prim = Num int | NaN | Text

text \<open>
  What a read \<open>obj[name]\<close> can give: \<open>undefined\<close>, an own property's primitive, or the
  member of \<open>Object.prototype\<close> of that name (a function, or for \<open>__proto__\<close> the
  prototype object itself).
\<close>

datatype jsval = Undefined | Prim prim | Inherited jsstring

text \<open>
  The own properties of a plain object, in insertion order (the language lists keys that
  are array indices first; nothing below depends on the order).
\<close>

type_synonym 'a jsobj = "(jsstring \<times> 'a) list"

text \<open>
  The assignment \<open>obj[k] = v\<close> of a primitive \<open>v\<close>. The name \<open>__proto__\<close> is an accessor
  of \<open>Object.prototype\<close> whose setter does nothing when given a primitive: no own
  property is made. Every other name, inherited or not, becomes or stays an own property.
\<close>

fun obj_put :: "'a jsobj \<Rightarrow> jsstring \<Rightarrow> 'a \<Rightarrow> 'a jsobj" where
  "obj_put [] k v = [(k, v)]"
| "obj_put ((k', v') # ps) k v =
     (if k' = k then (k, v) # ps else (k', v') # obj_put ps k v)"

definition obj_set :: "'a jsobj \<Rightarrow> jsstring \<Rightarrow> 'a \<Rightarrow> 'a jsobj" where
  "obj_set obj k v = (if k = js ''__proto__'' then obj else obj_put obj k v)"

text \<open>The read \<open>obj[k]\<close>.\<close>

definition obj_get :: "prim jsobj \<Rightarrow> jsstring \<Rightarrow> jsval" where
  "obj_get obj k =
     (case map_of obj k of
        Some v \<Rightarrow> Prim v
      | None \<Rightarrow> if k \<in> set object_prototype_names then Inherited k else Undefined)"

text \<open>
  Truthiness, and \<open>v || 0\<close>: \<open>0\<close>, \<open>NaN\<close> and \<open>undefined\<close> are falsy; functions,
  objects and non-empty strings are truthy.
\<close>

fun js_truthy :: "jsval \<Rightarrow> bool" where
  "js_truthy Undefined = False"
| "js_truthy (Prim (Num n)) = (n \<noteq> 0)"
| "js_truthy (Prim NaN) = False"
| "js_truthy (Prim Text) = True"
| "js_truthy (Inherited k) = True"

definition or_0 :: "jsval \<Rightarrow> jsval" where
  "or_0 v = (if js_truthy v then v else Prim (Num 0))"

text \<open>
  \<open>a + b\<close>: the sum of two numbers; a string as soon as one side is a string, a function
  or an object (these convert to their text); \<open>NaN\<close> when a side is \<open>NaN\<close> or
  \<open>undefined\<close> and the other a number.
\<close>

fun js_plus :: "jsval \<Rightarrow> jsval \<Rightarrow> prim" where
  "js_plus (Prim (Num a)) (Prim (Num b)) = Num (a + b)"
| "js_plus (Prim Text) b = Text"
| "js_plus (Inherited k) b = Text"
| "js_plus a (Prim Text) = Text"
| "js_plus a (Inherited k) = Text"
| "js_plus a b = NaN"

text \<open>
  \<open>a - b\<close> converts both sides to numbers: the difference of two numbers, and \<open>NaN\<close>
  when a side is \<open>NaN\<close>, \<open>undefined\<close>, a function, an object or one of the strings
  above.
\<close>

fun js_minus :: "jsval \<Rightarrow> jsval \<Rightarrow> prim" where
  "js_minus (Prim (Num a)) (Prim (Num b)) = Num (a - b)"
| "js_minus a b = NaN"

text \<open>\<open>v > 0\<close>: false on whatever converts to \<open>NaN\<close>.\<close>

fun js_gt0 :: "jsval \<Rightarrow> bool" where
  "js_gt0 (Prim (Num n)) = (n > 0)"
| "js_gt0 v = False"


section \<open>Budget evaluator\<close>

text \<open>A row of the \<open>budgets\<close> table.\<close>

record budget_row =
  b_month :: jsstring
  b_category :: jsstring
  b_amount :: int

text \<open>
  The map that \<open>loadBudgets\<close> builds from the fetched rows and stores as \<open>budgets\<close>:
  \<open>map[item.category] = item.amount\<close> for each row in turn.
\<close>

definition budgets_of :: "budget_row list \<Rightarrow> prim jsobj" where
  "budgets_of data = foldl (\<lambda>m item. obj_set m (b_category item) (Num (b_amount item))) [] data"

text \<open>\<open>budgetCategories\<close> and \<open>budgetTotal\<close> of \<open>budgetStats\<close>.\<close>

definition budgetCategories :: "prim jsobj \<Rightarrow> filters \<Rightarrow> jsstring list" where
  "budgetCategories budgets fl =
     (if f_type fl = js ''income'' then []
      else if f_category fl = js ''all'' then map fst budgets
      else [f_category fl])"

definition budgetTotal :: "prim jsobj \<Rightarrow> filters \<Rightarrow> prim" where
  "budgetTotal budgets fl =
     foldl (\<lambda>sum name. js_plus (Prim sum) (or_0 (obj_get budgets name))) (Num 0)
       (budgetCategories budgets fl)"

definition expenseTotal :: "transaction list \<Rightarrow> int" where
  "expenseTotal items =
     foldl (\<lambda>sum item. sum + t_amount item) 0 (filter (\<lambda>item. t_type item = js ''expense'') items)"




section \<open>Numbers and dates of the runtime\<close>

text \<open>
  \<open>String(n)\<close> of a non-negative integer below \<open>10\<^sup>2\<^sup>1\<close>: its decimal digits.
\<close>

fun dec_digits :: "nat \<Rightarrow> jsstring" where
  "dec_digits n =
     (if n < 10 then [of_nat (48 + n)] else dec_digits (n div 10) @ [of_nat (48 + n mod 10)])"

declare dec_digits.simps [simp del]

definition is_digit :: "jschar \<Rightarrow> bool" where
  "is_digit c = (0x30 \<le> c \<and> c \<le> 0x39)"

definition digits_value :: "jsstring \<Rightarrow> nat" where
  "digits_value s = foldl (\<lambda>acc c. 10 * acc + (unat c - 48)) 0 s"

text \<open>
  \<open>Number(s)\<close> on the strings the application passes to it without surrounding white
  space: the empty string is 0, a run of decimal digits with an optional sign is its value.
  \<open>None\<close> stands for every other result (\<open>NaN\<close>, or a number written in another way, such
  as a fraction or an exponent); the callers below treat \<open>None\<close> as \<open>NaN\<close>.
\<close>

definition Number_dec :: "jsstring \<Rightarrow> int option" where
  "Number_dec s =
     (if s = [] then Some 0
      else if list_all is_digit s then Some (int (digits_value s))
      else case s of
        c # ds \<Rightarrow>
          if ds \<noteq> [] \<and> list_all is_digit ds \<and> c = 0x2D then Some (- int (digits_value ds))
          else if ds \<noteq> [] \<and> list_all is_digit ds \<and> c = 0x2B then Some (int (digits_value ds))
          else None)"

definition pad_start :: "nat \<Rightarrow> jsstring \<Rightarrow> jsstring" where
  "pad_start n s = replicate (n - length s) 0x30 @ s"

text \<open>\<open>s.split(sep)\<close> for a separator of one code unit.\<close>

fun split_on :: "jschar \<Rightarrow> jsstring \<Rightarrow> jsstring \<Rightarrow> jsstring list" where
  "split_on sep cur [] = [cur]"
| "split_on sep cur (c # cs) =
     (if c = sep then cur # split_on sep [] cs else split_on sep (cur @ [c]) cs)"

text \<open>
  What a \<open>Date\<close> reads from its environment: the offset of local time from UTC in minutes
  (540 in Tokyo, -300 in New York in winter), taken as constant, and the current time
  value in milliseconds.
\<close>

record runtime =
  tz_offset_minutes :: int
  now_ms :: int

definition msPerDay :: int where
  "msPerDay = 86400000"

text \<open>
  The day number (days since 1970-01-01) of the first day of month \<open>mn\<close> (0 to 11) of a
  year of the proleptic Gregorian calendar, and the year, month (0 to 11) and day of month
  of a day number: the calendar of the language's \<open>MakeDay\<close>, \<open>YearFromTime\<close>,
  \<open>MonthFromTime\<close> and \<open>DateFromTime\<close>, computed by eras of 400 years.
\<close>

definition day_of_first :: "int \<Rightarrow> int \<Rightarrow> int" where
  "day_of_first year mn =
     (let m = mn + 1;
          y = (if m \<le> 2 then year - 1 else year);
          era = y div 400;
          yoe = y - era * 400;
          doy = (153 * (if m > 2 then m - 3 else m + 9) + 2) div 5;
          doe = yoe * 365 + yoe div 4 - yoe div 100 + doy
      in era * 146097 + doe - 719468)"

definition civil_from_day :: "int \<Rightarrow> int \<times> int \<times> int" where
  "civil_from_day day =
     (let z = day + 719468;
          era = z div 146097;
          doe = z - era * 146097;
          yoe = (doe - doe div 1460 + doe div 36524 - doe div 146096) div 365;
          doy = doe - (365 * yoe + yoe div 4 - yoe div 100);
          mp = (5 * doy + 2) div 153;
          d = doy - (153 * mp + 2) div 5 + 1;
          m = (if mp < 10 then mp + 3 else mp - 9);
          y = yoe + era * 400
      in (if m \<le> 2 then y + 1 else y, m - 1, d))"

definition MakeDay :: "int \<Rightarrow> int \<Rightarrow> int \<Rightarrow> int" where
  "MakeDay year month date =
     (let ym = year + month div 12; mn = month mod 12 in day_of_first ym mn + date - 1)"

definition MakeDate :: "int \<Rightarrow> int \<Rightarrow> int" where
  "MakeDate day time = day * msPerDay + time"

definition LocalTime :: "runtime \<Rightarrow> int \<Rightarrow> int" where
  "LocalTime rt t = t + tz_offset_minutes rt * 60000"

definition UTC :: "runtime \<Rightarrow> int \<Rightarrow> int" where
  "UTC rt t = t - tz_offset_minutes rt * 60000"

text \<open>
  \<open>new Date(year, month, date)\<close>: the arguments are local time; the value is the UTC time
  value. A year from 0 to 99 means 1900 + year.
\<close>

definition new_Date :: "runtime \<Rightarrow> int \<Rightarrow> int \<Rightarrow> int \<Rightarrow> int" where
  "new_Date rt year month date =
     (let yr = (if 0 \<le> year \<and> year \<le> 99 then 1900 + year else year)
      in UTC rt (MakeDate (MakeDay yr month date) 0))"

text \<open>\<open>date.setMonth(f(date.getMonth()))\<close> on the time value \<open>tv\<close>, in local time.\<close>

definition setMonth :: "runtime \<Rightarrow> int \<Rightarrow> (int \<Rightarrow> int) \<Rightarrow> int" where
  "setMonth rt tv f =
     (let t = LocalTime rt tv;
          (y, m, d) = civil_from_day (t div msPerDay)
      in UTC rt (MakeDate (MakeDay y (f m) d) (t mod msPerDay)))"

text \<open>
  The date part of \<open>toISOString()\<close>, which prints the UTC fields of the time value: the
  year in four digits (six and a sign outside 0 to 9999), the month and the day. The
  callers keep the first seven code units.
\<close>

definition toISOString_date :: "int \<Rightarrow> jsstring" where
  "toISOString_date tv =
     (let (y, m, d) = civil_from_day (tv div msPerDay);
          year = (if 0 \<le> y \<and> y \<le> 9999 then pad_start 4 (dec_digits (nat y))
                  else (if y < 0 then 0x2D else 0x2B) # pad_start 6 (dec_digits (nat \<bar>y\<bar>)))
      in year @ [0x2D] @ pad_start 2 (dec_digits (nat (m + 1)))
              @ [0x2D] @ pad_start 2 (dec_digits (nat d)))"

definition getPreviousMonth :: "runtime \<Rightarrow> jsstring" where
  "getPreviousMonth rt = take 7 (toISOString_date (setMonth rt (now_ms rt) (\<lambda>m. m - 1)))"

definition getPreviousMonthFrom :: "runtime \<Rightarrow> jsstring \<Rightarrow> jsstring" where
  "getPreviousMonthFrom rt monthValue =
     (if monthValue = [] then getPreviousMonth rt
      else case map Number_dec (split_on 0x2D [] monthValue) of
        Some year # Some month # _ \<Rightarrow>
          if year = 0 \<or> month = 0 then getPreviousMonth rt
          else take 7 (toISOString_date (new_Date rt year (month - 2) 1))
      | _ \<Rightarrow> getPreviousMonth rt)"

section \<open>CSV codec\<close>

text \<open>
  The code units that \<open>trim()\<close> removes at both ends: the language's white space and
  line terminators.
\<close>

definition is_js_whitespace :: "jschar \<Rightarrow> bool" where
  "is_js_whitespace c =
     (c = 0x09 \<or> c = 0x0A \<or> c = 0x0B \<or> c = 0x0C \<or> c = 0x0D \<or> c = 0x20 \<or> c = 0xA0
      \<or> c = 0x1680 \<or> (0x2000 \<le> c \<and> c \<le> 0x200A) \<or> c = 0x2028 \<or> c = 0x2029
      \<or> c = 0x202F \<or> c = 0x205F \<or> c = 0x3000 \<or> c = 0xFEFF)"

definition trim :: "jsstring \<Rightarrow> jsstring" where
  "trim s = rev (dropWhile is_js_whitespace (rev (dropWhile is_js_whitespace s)))"

text \<open>
  \<open>text.split(/\r?\n/)\<close>: a line ends at a line feed, and a carriage return right before
  the line feed goes with it. \<open>cur\<close> is the line read so far.
\<close>

fun split_lines :: "jsstring \<Rightarrow> jsstring \<Rightarrow> jsstring list" where
  "split_lines cur [] = [cur]"
| "split_lines cur (c # cs) =
     (if c = 0x0A then cur # split_lines [] cs
      else if c = 0x0D \<and> (case cs of [] \<Rightarrow> False | d # _ \<Rightarrow> d = 0x0A)
        then cur # split_lines [] (tl cs)
      else split_lines (cur @ [c]) cs)"

text \<open>
  The loop of \<open>parseCsv\<close> over one line, with its variables \<open>inQuotes\<close>, \<open>current\<close>
  and \<open>result\<close>; \<open>next\<close> is \<open>line[i + 1]\<close>, undefined at the end of the line.
\<close>

fun parse_line :: "bool \<Rightarrow> jsstring \<Rightarrow> jsstring list \<Rightarrow> jsstring \<Rightarrow> jsstring list" where
  "parse_line inQuotes current result [] = result @ [current]"
| "parse_line inQuotes current result (char # rest) =
     (if char = 0x22 \<and> inQuotes \<and> (case rest of [] \<Rightarrow> False | next # _ \<Rightarrow> next = 0x22)
        then parse_line inQuotes (current @ [0x22]) result (tl rest)
      else if char = 0x22 then parse_line (\<not> inQuotes) current result rest
      else if char = 0x2C \<and> \<not> inQuotes then parse_line inQuotes [] (result @ [current]) rest
      else parse_line inQuotes (current @ [char]) result rest)"

definition parseCsv :: "jsstring \<Rightarrow> jsstring list list" where
  "parseCsv text =
     map (\<lambda>line. map trim (parse_line False [] [] line))
       (filter (\<lambda>line. length (trim line) > 0) (split_lines [] text))"

text \<open>\<open>xs.join(sep)\<close>.\<close>

fun join_with :: "jsstring \<Rightarrow> jsstring list \<Rightarrow> jsstring" where
  "join_with sep [] = []"
| "join_with sep [x] = x"
| "join_with sep (x # y # ys) = x @ sep @ join_with sep (y # ys)"

text \<open>
  The encoder of \<open>downloadCsv\<close>: every cell in double quotes with its own double quotes
  doubled, cells joined by commas, rows by line feeds.
\<close>

definition quote_cell :: "jsstring \<Rightarrow> jsstring" where
  "quote_cell cell = [0x22] @ concat (map (\<lambda>c. if c = 0x22 then [0x22, 0x22] else [c]) cell) @ [0x22]"

definition csv_line :: "jsstring list \<Rightarrow> jsstring" where
  "csv_line row = join_with [0x2C] (map quote_cell row)"

definition csv_text :: "jsstring list list \<Rightarrow> jsstring" where
  "csv_text rows = join_with [0x0A] (map csv_line rows)"

text \<open>
  The \<open>purposes\<close> table, each value with its label, and the labels of the two types
  (\<open>label_income\<close> for \<open>income\<close>, \<open>label_expense\<close> for \<open>expense\<close>). The labels are
  Japanese words, written by their code units.
\<close>

definition purposes :: "(jsstring \<times> jsstring) list" where
  "purposes =
     [(js ''consumption'', [0x6D88, 0x8CBB]), (js ''waste'', [0x6D6A, 0x8CBB]),
      (js ''investment'', [0x6295, 0x8CC7])]"

definition label_income :: jsstring where
  "label_income = [0x53CE, 0x5165]"

definition label_expense :: jsstring where
  "label_expense = [0x652F, 0x51FA]"

text \<open>\<open>String(n)\<close> of an integer (below \<open>10\<^sup>2\<^sup>1\<close> in size).\<close>

definition String_int :: "int \<Rightarrow> jsstring" where
  "String_int n = (if n < 0 then 0x2D # dec_digits (nat (- n)) else dec_digits (nat n))"

text \<open>
  The header of a transactions file: the Japanese words for date, type, purpose, category,
  note and amount.
\<close>

definition transactions_header :: "jsstring list" where
  "transactions_header =
     [[0x65E5, 0x4ED8], [0x7A2E, 0x5225], [0x5206, 0x985E], [0x30AB, 0x30C6, 0x30B4, 0x30EA],
      [0x30E1, 0x30E2], [0x91D1, 0x984D]]"

text \<open>The six cells \<open>downloadCsv\<close> writes for a transaction.\<close>

definition transaction_line :: "transaction \<Rightarrow> jsstring list" where
  "transaction_line item =
     [t_date item,
      if t_type item = js ''income'' then label_income else label_expense,
      if t_type item = js ''income'' then label_income
      else (case map_of purposes (t_purpose item) of Some label \<Rightarrow> label | None \<Rightarrow> [0x6D88, 0x8CBB]),
      t_category item,
      note_text item,
      String_int (t_amount item)]"

text \<open>The text \<open>downloadCsv\<close> puts in the file.\<close>

definition downloadCsv :: "transaction list \<Rightarrow> jsstring" where
  "downloadCsv items = csv_text (transactions_header # map transaction_line items)"

text \<open>\<open>purposeFromLabel\<close>, also on an undefined label.\<close>

definition purposeFromLabel :: "jsstring option \<Rightarrow> jsstring" where
  "purposeFromLabel label =
     (case label of
        None \<Rightarrow> js ''consumption''
      | Some l \<Rightarrow> (case find (\<lambda>item. snd item = l) purposes of
                     Some found \<Rightarrow> fst found | None \<Rightarrow> js ''consumption''))"

text \<open>
  The import of a transactions file in \<open>handleImport\<close>. \<open>cell_at row i\<close> is \<open>row[i]\<close>,
  \<open>None\<close> for undefined, and \<open>or_else v d\<close> is \<open>v || d\<close>. A row that the source maps
  to \<open>null\<close> is \<open>None\<close>.
\<close>

definition cell_at :: "jsstring list \<Rightarrow> nat \<Rightarrow> jsstring option" where
  "cell_at row i = (if i < length row then Some (row ! i) else None)"

definition or_else :: "jsstring option \<Rightarrow> jsstring \<Rightarrow> jsstring" where
  "or_else v d = (case v of None \<Rightarrow> d | Some s \<Rightarrow> if s = [] then d else s)"

definition import_row :: "jsstring list \<Rightarrow> transaction option" where
  "import_row row =
     (let date = cell_at row 0; typeLabel = cell_at row 1; purposeLabel = cell_at row 2;
          category = cell_at row 3; note = cell_at row 4; amount = cell_at row 5;
          type = (if typeLabel = Some label_income then js ''income'' else js ''expense'');
          purpose = (if type = js ''income'' then js ''consumption'' else purposeFromLabel purposeLabel);
          amountValue = (case amount of None \<Rightarrow> None | Some a \<Rightarrow> Number_dec a)
      in case amountValue of
           None \<Rightarrow> None
         | Some v \<Rightarrow>
             if or_else date [] = [] then None
             else Some \<lparr>t_date = or_else date [], t_amount = \<bar>v\<bar>, t_type = type, t_purpose = purpose,
                        t_category = or_else category
                          (if type = js ''income'' then hd incomeCategories else hd defaultCategories),
                        t_note = Some (or_else note [])\<rparr>)"

text \<open>
  What \<open>handleImport\<close> does with the text of a transactions file: one of its three
  refusals, or the payload it gives to \<open>insert\<close> (without the owner's id).
\<close>

datatype import_result =
  NoCsvData | WrongCsvFormat | NothingToImport | InsertPayload "transaction list"

definition import_transactions :: "jsstring \<Rightarrow> import_result" where
  "import_transactions text =
     (let rows = parseCsv text in
      if length rows \<le> 1 then NoCsvData
      else let header = hd rows;
               body = filter (\<lambda>row. list_ex (\<lambda>cell. length cell > 0) row) (tl rows)
           in if cell_at header 0 \<noteq> Some (hd transactions_header) then WrongCsvFormat
              else let payload = List.map_filter import_row body
                   in if length payload = 0 then NothingToImport else InsertPayload payload)"


section \<open>Notions used to state the properties of the CSV codec\<close>

text \<open>
  A line that \<open>split\<close> gives back as it is; the cell with its quotes doubled; the end of
  a quoted cell is followed by no quote.
\<close>

definition plain_line :: "jsstring \<Rightarrow> bool" where
  "plain_line l \<longleftrightarrow> 0x0A \<notin> set l \<and> l \<noteq> [] \<and> last l \<noteq> 0x0D"

definition escape_quotes :: "jsstring \<Rightarrow> jsstring" where
  "escape_quotes cell = concat (map (\<lambda>c. if c = 0x22 then [0x22, 0x22] else [c]) cell)"

definition not_quote_next :: "jsstring \<Rightarrow> bool" where
  "not_quote_next rest \<longleftrightarrow> (case rest of [] \<Rightarrow> True | next # _ \<Rightarrow> next \<noteq> 0x22)"

text \<open>
  A field that goes through the codec unchanged has no line feed and nothing for
  \<open>trim()\<close> to remove.
\<close>

definition csv_safe :: "jsstring \<Rightarrow> bool" where
  "csv_safe s \<longleftrightarrow> 0x0A \<notin> set s \<and> trim s = s"

text \<open>
  A transaction as the application writes them: a date, a type and (for an expense) a
  purpose among the values the table's checks admit, a category, a non-negative amount
  of the \<open>integer\<close> column, and texts that go through the codec unchanged.
\<close>

definition exportable :: "transaction \<Rightarrow> bool" where
  "exportable t \<longleftrightarrow>
     t_date t \<noteq> [] \<and> csv_safe (t_date t)
     \<and> (t_type t = js ''income'' \<or> t_type t = js ''expense'')
     \<and> (t_type t = js ''expense'' \<longrightarrow> t_purpose t \<in> fst ` set purposes)
     \<and> t_category t \<noteq> [] \<and> csv_safe (t_category t)
     \<and> csv_safe (note_text t)
     \<and> 0 \<le> t_amount t \<and> t_amount t \<le> 2147483647"

text \<open>
  The tuple (date, type, purpose of an expense, category, note, amount) of a transaction,
  a null note read as the empty text.
\<close>

definition tuple_of ::
  "transaction \<Rightarrow> jsstring \<times> jsstring \<times> jsstring option \<times> jsstring \<times> jsstring \<times> int" where
  "tuple_of t =
     (t_date t, t_type t, if t_type t = js ''expense'' then Some (t_purpose t) else None,
      t_category t, note_text t, t_amount t)"

text \<open>The payload row that the import builds from an exported transaction.\<close>

definition reimported :: "transaction \<Rightarrow> transaction" where
  "reimported t =
     \<lparr>t_date = t_date t, t_amount = t_amount t, t_type = t_type t,
      t_purpose = (if t_type t = js ''income'' then js ''consumption'' else t_purpose t),
      t_category = t_category t, t_note = Some (note_text t)\<rparr>"

section \<open>Double precision and the budget statistics\<close>

text \<open>
  The numbers of the language are IEEE 754 double precision values. The totals below are
  integers, which double precision adds exactly while the sums stay below \<open>2\<^sup>5\<^sup>3\<close>;
  the quotient and the product of \<open>percent\<close> are not integers and are rounded. A finite
  double is a rational number, and \<open>nearest_double x\<close> is the double nearest to the rational \<open>x\<close>,
  the one with the even significand when two are equally near: the result of a division
  or a multiplication whose exact result is \<open>x\<close>. The significand has 53 bits, so the
  doubles next to \<open>x\<close> are the multiples of \<open>2\<^sup>e\<^sup>-\<^sup>5\<^sup>2\<close> where \<open>2\<^sup>e \<le> |x| < 2\<^sup>e\<^sup>+\<^sup>1\<close>. This
  is the rounding of the normal range, from \<open>2\<^sup>-\<^sup>1\<^sup>0\<^sup>2\<^sup>2\<close> to \<open>2\<^sup>1\<^sup>0\<^sup>2\<^sup>4\<close>, which holds
  every quotient of two positive integers below \<open>2\<^sup>5\<^sup>3\<close> and a hundred times it.
\<close>

definition floor_log2 :: "rat \<Rightarrow> int" where
  "floor_log2 x =
     (let (p, q) = quotient_of x; d = bitlen p - bitlen q
      in if 2 powi d \<le> x then d else d - 1)"

definition round_half_even :: "rat \<Rightarrow> int" where
  "round_half_even m =
     (let n = \<lfloor>m\<rfloor>; f = m - of_int n
      in if f < 1 / 2 then n else if f > 1 / 2 then n + 1 else if even n then n else n + 1)"

definition nearest_double :: "rat \<Rightarrow> rat" where
  "nearest_double x =
     (if x = 0 then 0
      else let u = 2 powi (floor_log2 \<bar>x\<bar> - 52)
           in sgn x * of_int (round_half_even (\<bar>x\<bar> / u)) * u)"

text \<open>The largest relative error of one rounding.\<close>

definition unit_roundoff :: rat where
  "unit_roundoff = 1 / 2 ^ 53"

text \<open>\<open>Math.round\<close>: the nearest integer, the larger one at a tie; it is exact.\<close>

definition Math_round :: "rat \<Rightarrow> int" where
  "Math_round x = \<lfloor>x + 1 / 2\<rfloor>"

text \<open>
  \<open>budgetTotal > 0 ? Math.round((expenseTotal / budgetTotal) * 100) : 0\<close>, on integer
  totals.
\<close>

definition percent :: "int \<Rightarrow> int \<Rightarrow> int" where
  "percent spent budget =
     (if budget > 0 then Math_round (nearest_double (nearest_double (of_int spent / of_int budget) * 100)) else 0)"

text \<open>
  \<open>budgetStats\<close> without \<open>daysLeft\<close> and \<open>daysInMonth\<close>, which read the clock and are
  the subject of no property below. \<open>budgetTotal > 0\<close> is false on a total that is not a
  number, and the percent is then 0.
\<close>

record budget_stats =
  s_budgetTotal :: prim
  s_expenseTotal :: int
  s_remaining :: prim
  s_percent :: int

definition budgetStats :: "prim jsobj \<Rightarrow> transaction list \<Rightarrow> filters \<Rightarrow> budget_stats" where
  "budgetStats budgets items fl =
     \<lparr>s_budgetTotal = budgetTotal budgets fl,
      s_expenseTotal = expenseTotal items,
      s_remaining = js_minus (Prim (budgetTotal budgets fl)) (Prim (Num (expenseTotal items))),
      s_percent = (case budgetTotal budgets fl of
                     Num budget \<Rightarrow> percent (expenseTotal items) budget
                   | _ \<Rightarrow> 0)\<rparr>"

text \<open>The nearest integer to an exact ratio times 100, the larger one at a tie.\<close>

definition exact_percent :: "int \<Rightarrow> int \<Rightarrow> int" where
  "exact_percent spent budget = \<lfloor>of_int (100 * spent) / (of_int budget :: rat) + 1 / 2\<rfloor>"

section \<open>The store, the browser and the component state\<close>

text \<open>
  The asynchronous functions that load and copy budgets read and write four things outside
  themselves: the \<open>budgets\<close> table of the hosted store (the rows of the signed-in owner,
  which is all that row-level security shows), the browser's \<open>localStorage\<close>, the
  \<open>confirm\<close> dialog, and the state of the component. They are modelled on one record
  holding all four, twice: first as functions that give the state after a whole call
  during which nothing else runs, then as calls that stop at every \<open>await\<close>, so that
  calls in flight together take their steps in any order.

  A dialog shown by \<open>confirm\<close>: the rollover prompt of \<open>maybeAutoCopyBudgets\<close> and the
  prompt of the manual copy, each with its source and target month, and the prompts before
  a transaction and before a category is deleted.
\<close>

datatype prompt =
  AutoCopyPrompt jsstring jsstring | ManualCopyPrompt jsstring jsstring
  | DeleteTransactionPrompt | DeleteCategoryPrompt jsstring

text \<open>
  What the user and the browser can observe, in order of occurrence: a write to
  \<open>localStorage\<close>, a dialog with its answer, the alert that a category is in use, and a
  file given to the browser to download (its name and its text).
\<close>

datatype event =
  SetItem jsstring jsstring | Confirm prompt bool | CategoryInUseAlert | Download jsstring jsstring

text \<open>
  The messages given to \<open>setStatus\<close>, without the error's own text, in the order of the
  source: none (the empty text); transactions load error; sign-in mail being sent, sign-in
  failed, sign-in mail sent; amount not valid, save error, delete error; category load,
  seed, add, update, check and delete errors; budget load
  error, budget not valid, budget save error, choose a source month, no budgets in the
  source month, budget delete error, budget copy error, budgets copied, budget file error;
  and for the import: no data in the file, then for each kind of file wrong format,
  nothing to import, import error and imported.
\<close>

datatype status_message =
  NoStatus
  | TransactionsLoadError | LoginSending | LoginFailed | LoginMailSent
  | AmountNotValid | SaveError | DeleteError
  | CategoryLoadError | CategorySeedError | CategoryAddError | CategoryUpdateError
  | CategoryCheckError | CategoryDeleteError
  | BudgetLoadError | BudgetNotValid | BudgetSaveError | ChooseSourceMonth | NoSourceBudgets
  | BudgetDeleteError | BudgetCopyError | BudgetsCopied | BudgetFileError
  | NoDataInFile
  | TransactionsFileWrong | NoTransactionsInFile | TransactionsImportError | TransactionsImported
  | CategoriesFileWrong | NoCategoriesInFile | CategoriesImportError | CategoriesImported
  | BudgetsFileWrong | NoBudgetsInFile | BudgetsImportError | BudgetsImported

text \<open>
  A value of \<open>budgetDrafts\<close>: a value copied from the \<open>budgets\<close> map by a load, or the
  text of an input.
\<close>

datatype draft = DraftNumber prim | DraftText jsstring

text \<open>
  \<open>w_db\<close> is the \<open>budgets\<close> table in order of creation. \<open>w_failures\<close> says for each
  request to come whether it fails (the network, a permission, a constraint that is not
  modelled), \<open>w_answers\<close> what the user
  answers to each dialog to come; past their ends requests succeed and dialogs are
  declined. \<open>w_trace\<close> records the events so far.
\<close>

record world =
  w_db :: "budget_row list"
  w_failures :: "bool list"
  w_answers :: "bool list"
  w_storage :: "jsstring \<rightharpoonup> jsstring"
  w_trace :: "event list"
  w_budgets :: "prim jsobj"
  w_budgetDrafts :: "draft jsobj"
  w_status :: status_message
  w_loading :: bool

definition next_request :: "world \<Rightarrow> bool \<times> world" where
  "next_request w =
     (case w_failures w of [] \<Rightarrow> (False, w) | b # bs \<Rightarrow> (b, w\<lparr>w_failures := bs\<rparr>))"

text \<open>
  \<open>supabase.from('budgets').select('*').eq('month', m)\<close>: \<open>None\<close> is a response with an
  \<open>error\<close>, \<open>Some data\<close> one with the rows. A request that fails changes nothing in the
  store.
\<close>

definition select_budgets :: "jsstring \<Rightarrow> world \<Rightarrow> budget_row list option \<times> world" where
  "select_budgets m w =
     (case next_request w of
        (failed, w') \<Rightarrow>
          if failed then (None, w')
          else (Some (filter (\<lambda>r. b_month r = m) (w_db w')), w'))"

text \<open>
  \<open>insert(payload)\<close> is one statement: it adds every row or none, and fails also when a
  row would break \<open>unique (user_id, month, category)\<close>. The first component of the result
  says whether the response carries an \<open>error\<close>.
\<close>

definition violates_unique :: "budget_row list \<Rightarrow> budget_row list \<Rightarrow> bool" where
  "violates_unique table payload =
     (\<not> distinct (map (\<lambda>r. (b_month r, b_category r)) (table @ payload)))"

definition insert_budgets :: "budget_row list \<Rightarrow> world \<Rightarrow> bool \<times> world" where
  "insert_budgets payload w =
     (case next_request w of
        (failed, w') \<Rightarrow>
          if failed \<or> violates_unique (w_db w') payload then (True, w')
          else (False, w'\<lparr>w_db := w_db w' @ payload\<rparr>))"

text \<open>\<open>delete().eq('user_id', ...).eq('month', m)\<close>.\<close>

definition delete_budgets :: "jsstring \<Rightarrow> world \<Rightarrow> bool \<times> world" where
  "delete_budgets m w =
     (case next_request w of
        (failed, w') \<Rightarrow>
          if failed then (True, w')
          else (False, w'\<lparr>w_db := filter (\<lambda>r. b_month r \<noteq> m) (w_db w')\<rparr>))"

definition confirm :: "prompt \<Rightarrow> world \<Rightarrow> bool \<times> world" where
  "confirm p w =
     (case w_answers w of
        [] \<Rightarrow> (False, w\<lparr>w_trace := w_trace w @ [Confirm p False]\<rparr>)
      | a # as \<Rightarrow> (a, w\<lparr>w_answers := as, w_trace := w_trace w @ [Confirm p a]\<rparr>))"

text \<open>\<open>if (localStorage.getItem(key))\<close>: the key is there and its value is not empty.\<close>

definition getItem_truthy :: "world \<Rightarrow> jsstring \<Rightarrow> bool" where
  "getItem_truthy w key = (case w_storage w key of None \<Rightarrow> False | Some v \<Rightarrow> v \<noteq> [])"

definition setItem :: "jsstring \<Rightarrow> jsstring \<Rightarrow> world \<Rightarrow> world" where
  "setItem key v w = w\<lparr>w_storage := (w_storage w)(key \<mapsto> v), w_trace := w_trace w @ [SetItem key v]\<rparr>"

definition storageKey :: "jsstring \<Rightarrow> jsstring" where
  "storageKey targetMonth = js ''budget-copy-'' @ targetMonth"

definition copy_payload :: "jsstring \<Rightarrow> budget_row list \<Rightarrow> budget_row list" where
  "copy_payload targetMonth data =
     map (\<lambda>item. \<lparr>b_month = targetMonth, b_category = b_category item, b_amount = b_amount item\<rparr>) data"

text \<open>The \<open>setBudgets(map)\<close> and \<open>setBudgetDrafts(...)\<close> of \<open>loadBudgets\<close>.\<close>

definition store_loaded :: "budget_row list \<Rightarrow> world \<Rightarrow> world" where
  "store_loaded data w =
     w\<lparr>w_budgets := budgets_of data,
        w_budgetDrafts :=
          foldl (\<lambda>next (category, amount). obj_set next category (DraftNumber amount))
            (w_budgetDrafts w) (budgets_of data)\<rparr>"

text \<open>
  \<open>loadBudgets\<close> and \<open>maybeAutoCopyBudgets\<close>, as one call from its start to its end
  with no other code running while it waits at an \<open>await\<close> (the next section lifts this
  restriction, and \<open>loadBudgets_uninterrupted\<close> shows that a call taking its steps
  alone ends in the state given here). The two functions call each other. The calls end
  because \<open>maybeAutoCopyBudgets\<close> reloads only after it has set the month's flag, and
  returns at once when the flag is set; no request or dialog touches \<open>localStorage\<close>.
\<close>

lemma next_request_storage: "next_request w = (b, w') \<Longrightarrow> w_storage w' = w_storage w"
  by (auto simp: next_request_def split: list.splits)

lemma select_budgets_storage: "select_budgets m w = (r, w') \<Longrightarrow> w_storage w' = w_storage w"
  by (auto simp: select_budgets_def split: prod.splits if_splits dest: next_request_storage)

lemma insert_budgets_storage: "insert_budgets p w = (r, w') \<Longrightarrow> w_storage w' = w_storage w"
  by (auto simp: insert_budgets_def split: prod.splits if_splits dest: next_request_storage)

lemma confirm_storage: "confirm p w = (r, w') \<Longrightarrow> w_storage w' = w_storage w"
  by (auto simp: confirm_def split: list.splits)

lemma store_loaded_storage: "w_storage (store_loaded d w) = w_storage w"
  by (simp add: store_loaded_def)

lemma js_prompted_nonempty: "js ''prompted'' \<noteq> []"
  by (simp add: js_def)

function loadBudgets :: "runtime \<Rightarrow> jsstring \<Rightarrow> world \<Rightarrow> world"
  and maybeAutoCopyBudgets :: "runtime \<Rightarrow> jsstring \<Rightarrow> world \<Rightarrow> world" where
  "loadBudgets rt targetMonth w =
     (if targetMonth = [] then w
      else case select_budgets targetMonth w of
        (None, w1) \<Rightarrow> w1\<lparr>w_status := BudgetLoadError\<rparr>
      | (Some data, w1) \<Rightarrow>
          if data = [] then maybeAutoCopyBudgets rt targetMonth (store_loaded data w1)
          else store_loaded data w1)"
| "maybeAutoCopyBudgets rt targetMonth w =
     (if getItem_truthy w (storageKey targetMonth) then w
      else case select_budgets (getPreviousMonthFrom rt targetMonth) w of
        (None, w1) \<Rightarrow> setItem (storageKey targetMonth) (js ''skipped'') w1
      | (Some data, w1) \<Rightarrow>
          if data = [] then setItem (storageKey targetMonth) (js ''skipped'') w1
          else case confirm (AutoCopyPrompt (getPreviousMonthFrom rt targetMonth) targetMonth)
                      (setItem (storageKey targetMonth) (js ''prompted'') w1) of
            (answer, w2) \<Rightarrow>
              if \<not> answer then w2
              else case insert_budgets (copy_payload targetMonth data) w2 of
                (insertError, w3) \<Rightarrow>
                  if insertError then w3\<lparr>w_status := BudgetCopyError\<rparr>
                  else loadBudgets rt targetMonth w3)"
  by pat_completeness auto

termination
proof (relation "measure (\<lambda>x. case x of
          Inl (rt, m, w) \<Rightarrow> (if getItem_truthy w (storageKey m) then 1 else 3)
        | Inr (rt, m, w) \<Rightarrow> (if getItem_truthy w (storageKey m) then 0 else 2))", goal_cases)
  case 1
  then show ?case by simp
next
  case (2 rt targetMonth w x w1 data)
  then have "w_storage w1 = w_storage w" by (auto dest: select_budgets_storage [OF sym])
  then show ?case by (simp add: getItem_truthy_def store_loaded_storage)
next
  case (3 rt targetMonth w x w1 data answer w2 insertError w3)
  from 3(2) have a: "w_storage w1 = w_storage w"
    by (rule select_budgets_storage [OF sym])
  from 3(5) have b: "w_storage w2 = (w_storage w1)(storageKey targetMonth \<mapsto> js ''prompted'')"
    by (auto dest!: confirm_storage [OF sym] simp: setItem_def)
  from 3(7) have c: "w_storage w3 = w_storage w2"
    by (rule insert_budgets_storage [OF sym])
  from a b c have "getItem_truthy w3 (storageKey targetMonth)"
    by (simp add: getItem_truthy_def js_prompted_nonempty)
  with 3(1) show ?case by simp
qed

declare loadBudgets.simps [simp del] maybeAutoCopyBudgets.simps [simp del]

section \<open>Calls in flight together\<close>

text \<open>
  A call of \<open>loadBudgets\<close> gives up control at each \<open>await\<close>: the request is under way,
  the store handles it at some later moment, and the code after the \<open>await\<close> runs at a
  still later one. Between those moments other code runs: the continuation of another
  call, the start of a new one. Two calls are in flight together on every sign-in, when
  the effect on \<open>[session]\<close> and the effect on \<open>[month, session]\<close> each call
  \<open>loadBudgets(month)\<close>, and whenever a handler calls it while an earlier call waits.

  A request to the \<open>budgets\<close> table and its response \<open>{ data, error }\<close>.
\<close>

datatype request = SelectBudgets jsstring | InsertBudgets "budget_row list"

record response =
  r_error :: bool
  r_data :: "budget_row list option"

definition serve :: "request \<Rightarrow> world \<Rightarrow> response \<times> world" where
  "serve req w =
     (case req of
        SelectBudgets m \<Rightarrow>
          (case select_budgets m w of
             (None, w') \<Rightarrow> (\<lparr>r_error = True, r_data = None\<rparr>, w')
           | (Some rows, w') \<Rightarrow> (\<lparr>r_error = False, r_data = Some rows\<rparr>, w'))
      | InsertBudgets payload \<Rightarrow>
          (case insert_budgets payload w of
             (failed, w') \<Rightarrow> (\<lparr>r_error = failed, r_data = None\<rparr>, w')))"

text \<open>
  The three \<open>await\<close>s of a call, each with the variables the code after it reads: the
  fetch of the target month in \<open>loadBudgets\<close>, the fetch of the previous month and the
  insert of the copied rows in \<open>maybeAutoCopyBudgets\<close>.
\<close>

datatype point =
  AfterTargetFetch runtime jsstring
  | AfterPreviousFetch runtime jsstring
  | AfterInsert runtime jsstring

text \<open>
  A call in flight: its request is with the store, or the response has come and its
  continuation is due, or it has returned.
\<close>

datatype task = Waiting request point | Resuming response point | Returned

text \<open>\<open>data || []\<close>.\<close>

definition data_or_empty :: "response \<Rightarrow> budget_row list" where
  "data_or_empty resp = (case r_data resp of None \<Rightarrow> [] | Some rows \<Rightarrow> rows)"

text \<open>The code of each function from its entry to its first \<open>await\<close>.\<close>

definition enter_loadBudgets :: "runtime \<Rightarrow> jsstring \<Rightarrow> world \<Rightarrow> task \<times> world" where
  "enter_loadBudgets rt targetMonth w =
     (if targetMonth = [] then (Returned, w)
      else (Waiting (SelectBudgets targetMonth) (AfterTargetFetch rt targetMonth), w))"

definition enter_maybeAutoCopyBudgets :: "runtime \<Rightarrow> jsstring \<Rightarrow> world \<Rightarrow> task \<times> world" where
  "enter_maybeAutoCopyBudgets rt targetMonth w =
     (if getItem_truthy w (storageKey targetMonth) then (Returned, w)
      else (Waiting (SelectBudgets (getPreviousMonthFrom rt targetMonth))
              (AfterPreviousFetch rt targetMonth), w))"

text \<open>
  The code from one \<open>await\<close> to the next. The dialog of \<open>confirm\<close> blocks the page, so
  it is part of the step that opens it.
\<close>

fun resume :: "point \<Rightarrow> response \<Rightarrow> world \<Rightarrow> task \<times> world" where
  "resume (AfterTargetFetch rt targetMonth) resp w =
     (if r_error resp then (Returned, w\<lparr>w_status := BudgetLoadError\<rparr>)
      else if data_or_empty resp = []
        then enter_maybeAutoCopyBudgets rt targetMonth (store_loaded (data_or_empty resp) w)
      else (Returned, store_loaded (data_or_empty resp) w))"
| "resume (AfterPreviousFetch rt targetMonth) resp w =
     (if r_error resp \<or> r_data resp = None \<or> r_data resp = Some []
      then (Returned, setItem (storageKey targetMonth) (js ''skipped'') w)
      else case confirm (AutoCopyPrompt (getPreviousMonthFrom rt targetMonth) targetMonth)
                  (setItem (storageKey targetMonth) (js ''prompted'') w) of
        (answer, w2) \<Rightarrow>
          if \<not> answer then (Returned, w2)
          else (Waiting (InsertBudgets (copy_payload targetMonth (data_or_empty resp)))
                  (AfterInsert rt targetMonth), w2))"
| "resume (AfterInsert rt targetMonth) resp w =
     (if r_error resp then (Returned, w\<lparr>w_status := BudgetCopyError\<rparr>)
      else enter_loadBudgets rt targetMonth w)"

text \<open>One step of a call: the store handles its request, or its continuation runs.\<close>

fun step_task :: "task \<Rightarrow> world \<Rightarrow> task \<times> world" where
  "step_task (Waiting req p) w = (case serve req w of (resp, w') \<Rightarrow> (Resuming resp p, w'))"
| "step_task (Resuming resp p) w = resume p resp w"
| "step_task Returned w = (Returned, w)"

text \<open>A call stepping alone, \<open>n\<close> times.\<close>

fun steps_alone :: "nat \<Rightarrow> task \<times> world \<Rightarrow> task \<times> world" where
  "steps_alone 0 s = s"
| "steps_alone (Suc n) s = steps_alone n (step_task (fst s) (snd s))"

text \<open>
  What happens to the page over time: a new call of \<open>loadBudgets\<close> (by an effect or by a
  handler), the next step of one of the calls in flight, or a change of the table by
  some other request (a saved budget, a manual copy, an import, another device).
\<close>

datatype move = Call runtime jsstring | Advance nat | TableChanged "budget_row list"

fun exec :: "move list \<Rightarrow> task list \<times> world \<Rightarrow> task list \<times> world" where
  "exec [] s = s"
| "exec (Call rt m # ms) (ts, w) =
     (case enter_loadBudgets rt m w of (t, w') \<Rightarrow> exec ms (ts @ [t], w'))"
| "exec (Advance i # ms) (ts, w) =
     (if i < length ts
      then case step_task (ts ! i) w of (t, w') \<Rightarrow> exec ms (ts[i := t], w')
      else exec ms (ts, w))"
| "exec (TableChanged rows # ms) (ts, w) = exec ms (ts, w\<lparr>w_db := rows\<rparr>)"

text \<open>
  A call that has passed the flag test of \<open>maybeAutoCopyBudgets\<close> for the month \<open>m\<close> and
  has not yet run the code after the fetch of the previous month.
\<close>

fun past_flag_test :: "jsstring \<Rightarrow> task \<Rightarrow> bool" where
  "past_flag_test m (Waiting req (AfterPreviousFetch rt targetMonth)) = (targetMonth = m)"
| "past_flag_test m (Resuming resp (AfterPreviousFetch rt targetMonth)) = (targetMonth = m)"
| "past_flag_test m t = False"

text \<open>
  \<open>copyBudgetsFromMonth\<close>, as one call from its start to its end with no other code
  running while it waits (\<open>copyBudgets_uninterrupted\<close> shows that the handler of a later
  section, taking its steps alone, ends in the state given here). The \<open>copyFromMonth\<close>
  and \<open>month\<close> states are arguments. It returns nothing in the source; the first
  component here names the \<open>return\<close> it left by.
\<close>

datatype copy_exit =
  NoSourceMonth | Declined | SourceReadFailed | SourceEmpty | DeleteFailed | InsertFailed | Copied

definition copyBudgetsFromMonth ::
  "runtime \<Rightarrow> jsstring \<Rightarrow> jsstring \<Rightarrow> world \<Rightarrow> copy_exit \<times> world" where
  "copyBudgetsFromMonth rt copyFromMonth month w =
     (if copyFromMonth = [] \<or> copyFromMonth = month
      then (NoSourceMonth, w\<lparr>w_status := ChooseSourceMonth\<rparr>)
      else case confirm (ManualCopyPrompt copyFromMonth month) w of
        (answer, w0) \<Rightarrow>
          if \<not> answer then (Declined, w0)
          else case select_budgets copyFromMonth (w0\<lparr>w_loading := True\<rparr>) of
            (None, w1) \<Rightarrow>
              (SourceReadFailed, w1\<lparr>w_status := BudgetLoadError, w_loading := False\<rparr>)
          | (Some data, w1) \<Rightarrow>
              if data = []
              then (SourceEmpty, w1\<lparr>w_status := NoSourceBudgets, w_loading := False\<rparr>)
              else case delete_budgets month w1 of
                (deleteError, w2) \<Rightarrow>
                  if deleteError
                  then (DeleteFailed, w2\<lparr>w_status := BudgetDeleteError, w_loading := False\<rparr>)
                  else case insert_budgets (copy_payload month data) w2 of
                    (insertError, w3) \<Rightarrow>
                      if insertError
                      then (InsertFailed, w3\<lparr>w_status := BudgetCopyError, w_loading := False\<rparr>)
                      else (Copied, (loadBudgets rt month w3)
                                      \<lparr>w_status := BudgetsCopied, w_loading := False\<rparr>))"

text \<open>
  Whole calls one after the other, each from its start to its end: a load of a month's
  budgets, a manual copy, and between them any change of the table made elsewhere (a
  saved budget, an import, another device).
\<close>

datatype action =
  Load runtime jsstring | Copy runtime jsstring jsstring | StoreChanged "budget_row list"

fun run :: "action list \<Rightarrow> world \<Rightarrow> world" where
  "run [] w = w"
| "run (Load rt m # as) w = run as (loadBudgets rt m w)"
| "run (Copy rt src m # as) w = run as (snd (copyBudgetsFromMonth rt src m w))"
| "run (StoreChanged rows # as) w = run as (w\<lparr>w_db := rows\<rparr>)"

text \<open>The rollover prompts shown so far for the target month \<open>t\<close>.\<close>

fun is_rollover_prompt :: "jsstring \<Rightarrow> event \<Rightarrow> bool" where
  "is_rollover_prompt t (Confirm (AutoCopyPrompt src m) a) = (m = t)"
| "is_rollover_prompt t e = False"

definition rollover_prompts :: "jsstring \<Rightarrow> world \<Rightarrow> event list" where
  "rollover_prompts t w = filter (is_rollover_prompt t) (w_trace w)"

text \<open>The answer the user gives to the next dialog.\<close>

definition next_answer :: "world \<Rightarrow> bool" where
  "next_answer w = (case w_answers w of [] \<Rightarrow> False | a # as \<Rightarrow> a)"


text \<open>
  Two states agree on a target month: the same rollover prompts shown for it and the same
  flag.
\<close>

definition same_about :: "jsstring \<Rightarrow> world \<Rightarrow> world \<Rightarrow> bool" where
  "same_about t w w' \<longleftrightarrow>
     rollover_prompts t w' = rollover_prompts t w
     \<and> w_storage w' (storageKey t) = w_storage w (storageKey t)"

section \<open>The other operations on the store\<close>

text \<open>
  The other handlers of the component work on the tables \<open>transactions\<close> and
  \<open>categories\<close> as well, and on more of the component's state; two of them talk to the
  authentication service of the store. The state below adds these to the record of the
  last sections. The \<open>session\<close> state, which the listener of the authentication service
  sets, is the subject of no property here and is left out.

  The \<open>form\<close> state, and a row of \<open>transactions\<close> with its \<open>id\<close> (a number here, the
  store's random identifier in the source).
\<close>

record form =
  fm_date :: jsstring
  fm_amount :: jsstring
  fm_type :: jsstring
  fm_purpose :: jsstring
  fm_category :: jsstring
  fm_note :: jsstring

type_synonym stored_transaction = "nat \<times> transaction"

text \<open>
  \<open>p_transactions_table\<close> and \<open>p_categories_table\<close> are the owner's rows in order of
  creation (of a category its name), \<open>p_next_id\<close> the next identifier the store gives
  out; \<open>p_importFile\<close> is the text of the chosen file. The other fields are the states of
  the same names.
\<close>

record page =
  p_world :: world
  p_transactions_table :: "stored_transaction list"
  p_categories_table :: "jsstring list"
  p_next_id :: nat
  p_transactions :: "stored_transaction list"
  p_categories :: "jsstring list"
  p_form :: form
  p_categoryDraft :: jsstring
  p_editingCategoryId :: "jsstring option"
  p_editingCategoryName :: jsstring
  p_importFile :: "jsstring option"
  p_email :: jsstring

definition setStatus :: "status_message \<Rightarrow> page \<Rightarrow> page" where
  "setStatus s p = p\<lparr>p_world := (p_world p)\<lparr>w_status := s\<rparr>\<rparr>"

definition setLoading :: "bool \<Rightarrow> page \<Rightarrow> page" where
  "setLoading b p = p\<lparr>p_world := (p_world p)\<lparr>w_loading := b\<rparr>\<rparr>"

definition cancelEditCategory :: "page \<Rightarrow> page" where
  "cancelEditCategory p = p\<lparr>p_editingCategoryId := None, p_editingCategoryName := []\<rparr>"

text \<open>A function of the last sections, run on the part of the state it knows.\<close>

definition in_world :: "(world \<Rightarrow> 'a \<times> world) \<Rightarrow> page \<Rightarrow> 'a \<times> page" where
  "in_world f p = (case f (p_world p) of (r, w') \<Rightarrow> (r, p\<lparr>p_world := w'\<rparr>))"

definition show_event :: "event \<Rightarrow> page \<Rightarrow> page" where
  "show_event e p = p\<lparr>p_world := (p_world p)\<lparr>w_trace := w_trace (p_world p) @ [e]\<rparr>\<rparr>"

subsection \<open>Requests\<close>

text \<open>
  What a handler waits for at an \<open>await\<close>: the response to a request to one of the three
  tables or to the authentication service, or the text of the chosen file.
\<close>

datatype awaited =
  SelectTransactions
  | InsertTransactions "transaction list"
  | DeleteTransaction nat
  | SelectCategories
  | InsertCategories "jsstring list"
  | RenameCategory jsstring jsstring
  | RecategoriseTransactions jsstring jsstring
  | CountTransactions jsstring
  | DeleteCategory jsstring
  | DeleteBudgetsOfCategory jsstring
  | UpsertBudget budget_row
  | SelectBudgetsOfMonth jsstring
  | DeleteBudgetsOfMonth jsstring
  | InsertBudgetRows "budget_row list"
  | SelectAllBudgets
  | FileText jsstring
  | SignIn jsstring
  | SignOut

text \<open>The \<open>data\<close> (or \<open>count\<close>) of a response, \<open>NoData\<close> for \<open>null\<close>, and the response.\<close>

datatype received =
  NoData
  | TransactionRows "stored_transaction list"
  | CategoryRows "jsstring list"
  | BudgetRows "budget_row list"
  | Count nat
  | FileContent jsstring

record reply =
  reply_error :: bool
  reply_data :: received

definition failed_reply :: reply where
  "failed_reply = \<lparr>reply_error = True, reply_data = NoData\<rparr>"

definition ok_reply :: "received \<Rightarrow> reply" where
  "ok_reply d = \<lparr>reply_error = False, reply_data = d\<rparr>"

text \<open>
  \<open>.order(column)\<close>: the rows in the order of a column, rows that are equal in it left in
  the order they had. \<open>earlier a b\<close> says that \<open>a\<close> comes strictly before \<open>b\<close>; dates and
  months compare as their texts do.
\<close>

fun insert_by :: "('a \<Rightarrow> 'a \<Rightarrow> bool) \<Rightarrow> 'a \<Rightarrow> 'a list \<Rightarrow> 'a list" where
  "insert_by earlier x [] = [x]"
| "insert_by earlier x (y # ys) =
     (if earlier y x then y # insert_by earlier x ys else x # y # ys)"

definition order_by :: "('a \<Rightarrow> 'a \<Rightarrow> bool) \<Rightarrow> 'a list \<Rightarrow> 'a list" where
  "order_by earlier xs = foldr (insert_by earlier) xs []"

text \<open>
  A request to the store is let through or failed by the same oracle as before
  (\<open>w_failures\<close>: the network, a permission, a constraint that is not modelled); a
  request that fails changes nothing.
\<close>

definition ask_store :: "page \<Rightarrow> (page \<Rightarrow> reply \<times> page) \<Rightarrow> reply \<times> page" where
  "ask_store p handle =
     (case next_request (p_world p) of
        (failed, w') \<Rightarrow>
          if failed then (failed_reply, p\<lparr>p_world := w'\<rparr>) else handle (p\<lparr>p_world := w'\<rparr>))"

text \<open>
  The requests of the source, in the order of \<open>awaited\<close>:
  \<^item> \<open>transactions\<close>: \<open>select('*')\<close> ordered by \<open>date\<close> and then \<open>created_at\<close>, both
    descending; \<open>insert(payload)\<close>; \<open>delete().eq('id', id)\<close>;
  \<^item> \<open>categories\<close>: \<open>select('*')\<close> ordered by \<open>created_at\<close>; \<open>insert\<close>, which
    \<open>unique (user_id, name)\<close> fails; \<open>update({ name }).eq('name', oldName)\<close>, which the
    same constraint fails;
  \<^item> \<open>transactions\<close>: \<open>update({ category }).eq('category', oldName)\<close>; the count of the
    rows of a category;
  \<^item> \<open>categories\<close>: \<open>delete().eq('name', name)\<close>; \<open>budgets\<close>:
    \<open>delete().eq('category', name)\<close>;
  \<^item> \<open>budgets\<close>: \<open>upsert(row)\<close>, whose outcome on the table is the store's and is the
    parameter \<open>upsert\<close> (\<open>None\<close> when it fails); the select, delete and insert of the
    manual copy and of the import; \<open>select('month, category, amount')\<close> ordered by
    \<open>month\<close>;
  \<^item> \<open>importFile.text()\<close>, which is no request to the store;
  \<^item> \<open>auth.signInWithOtp({ email })\<close> and \<open>auth.signOut()\<close>, which touch no table.
\<close>

fun serve_page ::
  "(budget_row \<Rightarrow> budget_row list \<Rightarrow> budget_row list option) \<Rightarrow> awaited \<Rightarrow> page \<Rightarrow> reply \<times> page"
  where
  "serve_page upsert SelectTransactions p =
     ask_store p (\<lambda>p.
       (ok_reply (TransactionRows
          (order_by (\<lambda>a b. js_lt (t_date (snd b)) (t_date (snd a)))
             (rev (p_transactions_table p)))), p))"
| "serve_page upsert (InsertTransactions payload) p =
     ask_store p (\<lambda>p.
       (ok_reply NoData,
        p\<lparr>p_transactions_table :=
            p_transactions_table p @ zip [p_next_id p ..< p_next_id p + length payload] payload,
          p_next_id := p_next_id p + length payload\<rparr>))"
| "serve_page upsert (DeleteTransaction i) p =
     ask_store p (\<lambda>p.
       (ok_reply NoData,
        p\<lparr>p_transactions_table := filter (\<lambda>r. fst r \<noteq> i) (p_transactions_table p)\<rparr>))"
| "serve_page upsert SelectCategories p =
     ask_store p (\<lambda>p. (ok_reply (CategoryRows (p_categories_table p)), p))"
| "serve_page upsert (InsertCategories names) p =
     ask_store p (\<lambda>p.
       if \<not> distinct (p_categories_table p @ names) then (failed_reply, p)
       else (ok_reply NoData, p\<lparr>p_categories_table := p_categories_table p @ names\<rparr>))"
| "serve_page upsert (RenameCategory oldName nextName) p =
     ask_store p (\<lambda>p.
       let renamed = map (\<lambda>name. if name = oldName then nextName else name) (p_categories_table p)
       in if \<not> distinct renamed then (failed_reply, p)
          else (ok_reply NoData, p\<lparr>p_categories_table := renamed\<rparr>))"
| "serve_page upsert (RecategoriseTransactions oldName nextName) p =
     ask_store p (\<lambda>p.
       (ok_reply NoData,
        p\<lparr>p_transactions_table :=
            map (\<lambda>(i, t). (i, if t_category t = oldName then t\<lparr>t_category := nextName\<rparr> else t))
              (p_transactions_table p)\<rparr>))"
| "serve_page upsert (CountTransactions name) p =
     ask_store p (\<lambda>p.
       (ok_reply (Count (length (filter (\<lambda>r. t_category (snd r) = name) (p_transactions_table p)))),
        p))"
| "serve_page upsert (DeleteCategory name) p =
     ask_store p (\<lambda>p.
       (ok_reply NoData,
        p\<lparr>p_categories_table := filter (\<lambda>n. n \<noteq> name) (p_categories_table p)\<rparr>))"
| "serve_page upsert (DeleteBudgetsOfCategory name) p =
     ask_store p (\<lambda>p.
       (ok_reply NoData,
        p\<lparr>p_world := (p_world p)\<lparr>w_db := filter (\<lambda>r. b_category r \<noteq> name) (w_db (p_world p))\<rparr>\<rparr>))"
| "serve_page upsert (UpsertBudget row) p =
     ask_store p (\<lambda>p.
       case upsert row (w_db (p_world p)) of
         None \<Rightarrow> (failed_reply, p)
       | Some table \<Rightarrow> (ok_reply NoData, p\<lparr>p_world := (p_world p)\<lparr>w_db := table\<rparr>\<rparr>))"
| "serve_page upsert (SelectBudgetsOfMonth m) p =
     (case in_world (select_budgets m) p of
        (None, p') \<Rightarrow> (failed_reply, p')
      | (Some rows, p') \<Rightarrow> (ok_reply (BudgetRows rows), p'))"
| "serve_page upsert (DeleteBudgetsOfMonth m) p =
     (case in_world (delete_budgets m) p of
        (failed, p') \<Rightarrow> (\<lparr>reply_error = failed, reply_data = NoData\<rparr>, p'))"
| "serve_page upsert (InsertBudgetRows rows) p =
     (case in_world (insert_budgets rows) p of
        (failed, p') \<Rightarrow> (\<lparr>reply_error = failed, reply_data = NoData\<rparr>, p'))"
| "serve_page upsert SelectAllBudgets p =
     ask_store p (\<lambda>p.
       (ok_reply (BudgetRows (order_by (\<lambda>a b. js_lt (b_month a) (b_month b)) (w_db (p_world p)))),
        p))"
| "serve_page upsert (FileText content) p = (ok_reply (FileContent content), p)"
| "serve_page upsert (SignIn email) p = ask_store p (\<lambda>p. (ok_reply NoData, p))"
| "serve_page upsert SignOut p = ask_store p (\<lambda>p. (ok_reply NoData, p))"

text \<open>
  What the code reads from a response: \<open>data || []\<close>, \<open>data\<close> with \<open>None\<close> for
  \<open>null\<close>, and \<open>count\<close>, which is falsy when it is \<open>null\<close>.
\<close>

definition transactions_or_empty :: "reply \<Rightarrow> stored_transaction list" where
  "transactions_or_empty r = (case reply_data r of TransactionRows rows \<Rightarrow> rows | _ \<Rightarrow> [])"

definition category_rows :: "reply \<Rightarrow> jsstring list option" where
  "category_rows r = (case reply_data r of CategoryRows names \<Rightarrow> Some names | _ \<Rightarrow> None)"

definition budget_rows :: "reply \<Rightarrow> budget_row list option" where
  "budget_rows r = (case reply_data r of BudgetRows rows \<Rightarrow> Some rows | _ \<Rightarrow> None)"

definition count_or_0 :: "reply \<Rightarrow> nat" where
  "count_or_0 r = (case reply_data r of Count n \<Rightarrow> n | _ \<Rightarrow> 0)"

definition file_content :: "reply \<Rightarrow> jsstring" where
  "file_content r = (case reply_data r of FileContent content \<Rightarrow> content | _ \<Rightarrow> [])"

subsection \<open>The import of a categories file and of a budgets file\<close>

text \<open>
  As for a transactions file: one of the three refusals or the payload. The first header
  cells are the Japanese words for category and for month.
\<close>

datatype 'a file_import = FileNoData | FileWrong | FileNothing | FilePayload "'a list"

definition import_categories :: "jsstring \<Rightarrow> jsstring file_import" where
  "import_categories content =
     (let rows = parseCsv content in
      if length rows \<le> 1 then FileNoData
      else let header = hd rows;
               body = filter (\<lambda>row. list_ex (\<lambda>cell. length cell > 0) row) (tl rows)
           in if cell_at header 0 \<noteq> Some [0x30AB, 0x30C6, 0x30B4, 0x30EA] then FileWrong
              else let payload = filter (\<lambda>name. name \<noteq> []) (map (\<lambda>row. or_else (cell_at row 0) []) body)
                   in if length payload = 0 then FileNothing else FilePayload payload)"

definition import_budget_row :: "jsstring list \<Rightarrow> budget_row option" where
  "import_budget_row row =
     (let monthValue = cell_at row 0; category = cell_at row 1; amount = cell_at row 2;
          amountValue = (case amount of None \<Rightarrow> None | Some a \<Rightarrow> Number_dec a)
      in case amountValue of
           None \<Rightarrow> None
         | Some v \<Rightarrow>
             if or_else monthValue [] = [] \<or> or_else category [] = [] then None
             else Some \<lparr>b_month = or_else monthValue [], b_category = or_else category [],
                        b_amount = \<bar>v\<bar>\<rparr>)"

definition import_budgets :: "jsstring \<Rightarrow> budget_row file_import" where
  "import_budgets content =
     (let rows = parseCsv content in
      if length rows \<le> 1 then FileNoData
      else let header = hd rows;
               body = filter (\<lambda>row. list_ex (\<lambda>cell. length cell > 0) row) (tl rows)
           in if cell_at header 0 \<noteq> Some [0x6708] then FileWrong
              else let payload = List.map_filter import_budget_row body
                   in if length payload = 0 then FileNothing else FilePayload payload)"

datatype import_kind = TransactionsFile | CategoriesFile | BudgetsFile

subsection \<open>The handlers, from one await to the next\<close>

text \<open>
  The \<open>await\<close>s of the handlers, each with the variables that the code after it reads.
  A handler reads \<open>form\<close>, \<open>month\<close> and the other states as they were in the render
  that made it, so it carries them from its start: \<open>form\<close> is read after an \<open>await\<close>
  by \<open>loadCategories\<close> and by the rename and the deletion of a category. The places are,
  in the order of the source: in \<open>loadTransactions\<close>; in \<open>handleSubmit\<close>; in
  \<open>handleDelete\<close>; the select, the seeding insert and the second select of
  \<open>loadCategories\<close>; in \<open>handleAddCategory\<close>; the two updates of
  \<open>handleRenameCategory\<close>; the count and the two deletes of \<open>handleDeleteCategory\<close>;
  in \<open>saveBudget\<close>; the select, the delete and the insert of \<open>copyBudgetsFromMonth\<close>;
  in \<open>downloadBudgetsCsvAll\<close>; in \<open>handleImport\<close> the reading of the file and the
  insert of each kind. \<open>handleLogin\<close> and \<open>handleLogout\<close>, which come before
  \<open>handleSubmit\<close> in the source, have the last two places.
\<close>

datatype place =
  AfterTransactionsSelect
  | AfterSubmitInsert
  | AfterTransactionDelete
  | AfterCategoriesSelect form
  | AfterCategoriesSeed
  | AfterCategoriesReselect
  | AfterCategoryInsert form
  | AfterCategoryRename form jsstring jsstring
  | AfterRecategorise form jsstring jsstring
  | AfterCount form jsstring
  | AfterCategoryDelete form jsstring
  | AfterBudgetsOfCategoryDelete form jsstring
  | AfterBudgetUpsert runtime jsstring
  | AfterCopySelect runtime jsstring
  | AfterCopyDelete runtime jsstring "budget_row list"
  | AfterCopyInsert runtime jsstring
  | AfterAllBudgetsSelect
  | AfterFileText import_kind form runtime jsstring
  | AfterTransactionsImport
  | AfterCategoriesImport form
  | AfterBudgetsImport runtime jsstring
  | AfterSignIn
  | AfterSignOut

text \<open>
  What is left of a handler after its last \<open>await\<close>, which is of a call of
  \<open>loadTransactions\<close>, \<open>loadCategories\<close> or \<open>loadBudgets\<close>: it runs when that call
  returns.
\<close>

datatype caller =
  SubmitEnd | DeleteEnd | AddCategoryEnd
  | RenameEnd form jsstring jsstring
  | DeleteCategoryEnd form jsstring
  | SaveBudgetEnd | CopyEnd
  | TransactionsImportEnd | CategoriesImportEnd | BudgetsImportEnd

text \<open>The \<open>finally\<close> of \<open>handleImport\<close>.\<close>

definition import_finally :: "page \<Rightarrow> page" where
  "import_finally p = (setLoading False p)\<lparr>p_importFile := None\<rparr>"

fun finish :: "caller \<Rightarrow> page \<Rightarrow> page" where
  "finish SubmitEnd p = setLoading False p"
| "finish DeleteEnd p = setLoading False p"
| "finish AddCategoryEnd p = setLoading False p"
| "finish (RenameEnd form oldName nextName) p =
     setLoading False
       (cancelEditCategory
          (if fm_category form = oldName
           then p\<lparr>p_form := (p_form p)\<lparr>fm_category := nextName\<rparr>\<rparr> else p))"
| "finish (DeleteCategoryEnd form name) p =
     setLoading False
       (if fm_category form = name
        then p\<lparr>p_form := (p_form p)\<lparr>fm_category := hd defaultCategories\<rparr>\<rparr> else p)"
| "finish SaveBudgetEnd p = setLoading False p"
| "finish CopyEnd p = setLoading False (setStatus BudgetsCopied p)"
| "finish TransactionsImportEnd p = import_finally (setStatus TransactionsImported p)"
| "finish CategoriesImportEnd p = import_finally (setStatus CategoriesImported p)"
| "finish BudgetsImportEnd p = import_finally (setStatus BudgetsImported p)"

text \<open>
  A handler in flight: waiting for a response, with the response come and its continuation
  due, inside a call of \<open>loadBudgets\<close> (a call of the last section), or ended. The list
  holds what is left of the handlers that wait for this one to return, the innermost
  first.
\<close>

datatype handler =
  Pending awaited place "caller list"
  | Responded reply place "caller list"
  | InLoadBudgets task "caller list"
  | Ended

text \<open>A return: the handlers that were waiting run to their ends.\<close>

definition unwind :: "caller list \<Rightarrow> page \<Rightarrow> handler \<times> page" where
  "unwind callers p = (Ended, foldl (\<lambda>p c. finish c p) p callers)"

text \<open>The three load functions, from the call to the first \<open>await\<close>.\<close>

definition call_loadTransactions :: "caller list \<Rightarrow> page \<Rightarrow> handler \<times> page" where
  "call_loadTransactions callers p =
     (Pending SelectTransactions AfterTransactionsSelect callers, setLoading True p)"

definition call_loadCategories :: "form \<Rightarrow> caller list \<Rightarrow> page \<Rightarrow> handler \<times> page" where
  "call_loadCategories form callers p =
     (Pending SelectCategories (AfterCategoriesSelect form) callers, setLoading True p)"

definition call_loadBudgets :: "runtime \<Rightarrow> jsstring \<Rightarrow> caller list \<Rightarrow> page \<Rightarrow> handler \<times> page" where
  "call_loadBudgets rt targetMonth callers p =
     (case in_world (enter_loadBudgets rt targetMonth) p of
        (Returned, p') \<Rightarrow> unwind callers p'
      | (t, p') \<Rightarrow> (InLoadBudgets t callers, p'))"

text \<open>The handlers, from the event to the first \<open>await\<close>.\<close>

definition handleLogin :: "page \<Rightarrow> handler \<times> page" where
  "handleLogin p =
     (if p_email p = [] then (Ended, p)
      else (Pending (SignIn (p_email p)) AfterSignIn [],
            setStatus LoginSending (setLoading True p)))"

definition handleLogout :: "page \<Rightarrow> handler \<times> page" where
  "handleLogout p = (Pending SignOut AfterSignOut [], p)"

definition handleSubmit :: "page \<Rightarrow> handler \<times> page" where
  "handleSubmit p =
     (let form = p_form p in
      if fm_date form = [] \<or> fm_amount form = [] then (Ended, p)
      else case Number_dec (fm_amount form) of
        None \<Rightarrow> (Ended, setStatus AmountNotValid p)
      | Some amountValue \<Rightarrow>
          (Pending
             (InsertTransactions
                [\<lparr>t_date = fm_date form, t_amount = \<bar>amountValue\<bar>, t_type = fm_type form,
                  t_purpose = fm_purpose form, t_category = fm_category form,
                  t_note = Some (trim (fm_note form))\<rparr>])
             AfterSubmitInsert [],
           setLoading True p))"

definition handleDelete :: "nat \<Rightarrow> page \<Rightarrow> handler \<times> page" where
  "handleDelete i p =
     (case in_world (confirm DeleteTransactionPrompt) p of
        (answer, p') \<Rightarrow>
          if \<not> answer then (Ended, p')
          else (Pending (DeleteTransaction i) AfterTransactionDelete [], setLoading True p'))"

definition handleAddCategory :: "page \<Rightarrow> handler \<times> page" where
  "handleAddCategory p =
     (let name = trim (p_categoryDraft p) in
      if name = [] then (Ended, p)
      else (Pending (InsertCategories [name]) (AfterCategoryInsert (p_form p)) [],
            setLoading True p))"


definition handleDeleteCategory :: "jsstring \<Rightarrow> page \<Rightarrow> handler \<times> page" where
  "handleDeleteCategory name p =
     (Pending (CountTransactions name) (AfterCount (p_form p) name) [], p)"

text \<open>
  \<open>saveBudget\<close>. \<open>budgetDrafts[name]\<close> is a draft of the category, or the inherited
  member of that name (a function or an object, which \<open>Number\<close> turns into \<open>NaN\<close>), or
  \<open>undefined\<close>. The drafts hold numbers put there by a load and texts of the input.
\<close>

definition saveBudget :: "runtime \<Rightarrow> jsstring \<Rightarrow> jsstring \<Rightarrow> page \<Rightarrow> handler \<times> page" where
  "saveBudget rt month name p =
     (let raw = map_of (w_budgetDrafts (p_world p)) name in
      if raw = Some (DraftText []) \<or> (raw = None \<and> name \<notin> set object_prototype_names)
      then (Ended, p)
      else case (case raw of
                   Some (DraftText s) \<Rightarrow> Number_dec s
                 | Some (DraftNumber (Num n)) \<Rightarrow> Some n
                 | _ \<Rightarrow> None) of
        None \<Rightarrow> (Ended, setStatus BudgetNotValid p)
      | Some amountValue \<Rightarrow>
          if amountValue < 0 then (Ended, setStatus BudgetNotValid p)
          else (Pending
                  (UpsertBudget \<lparr>b_month = month, b_category = name, b_amount = amountValue\<rparr>)
                  (AfterBudgetUpsert rt month) [],
                setLoading True p))"

text \<open>\<open>copyBudgetsFromMonth\<close>, as a handler that stops at its \<open>await\<close>s.\<close>

definition copyBudgets :: "runtime \<Rightarrow> jsstring \<Rightarrow> jsstring \<Rightarrow> page \<Rightarrow> handler \<times> page" where
  "copyBudgets rt copyFromMonth month p =
     (if copyFromMonth = [] \<or> copyFromMonth = month then (Ended, setStatus ChooseSourceMonth p)
      else case in_world (confirm (ManualCopyPrompt copyFromMonth month)) p of
        (answer, p') \<Rightarrow>
          if \<not> answer then (Ended, p')
          else (Pending (SelectBudgetsOfMonth copyFromMonth) (AfterCopySelect rt month) [],
                setLoading True p'))"

definition downloadBudgetsCsvAll :: "page \<Rightarrow> handler \<times> page" where
  "downloadBudgetsCsvAll p = (Pending SelectAllBudgets AfterAllBudgetsSelect [], p)"

definition handleImport :: "import_kind \<Rightarrow> runtime \<Rightarrow> jsstring \<Rightarrow> page \<Rightarrow> handler \<times> page" where
  "handleImport importKind rt month p =
     (case p_importFile p of
        None \<Rightarrow> (Ended, p)
      | Some content \<Rightarrow>
          (Pending (FileText content) (AfterFileText importKind (p_form p) rt month) [],
           setLoading True p))"

text \<open>
  The text of the file that \<open>downloadBudgetsCsvAll\<close> writes: the header (the Japanese
  words for month, category and budget) and a line for each row.
\<close>

definition budgets_file :: "budget_row list \<Rightarrow> jsstring" where
  "budgets_file data =
     csv_text ([[0x6708], [0x30AB, 0x30C6, 0x30B4, 0x30EA], [0x4E88, 0x7B97]]
               # map (\<lambda>item. [b_month item, b_category item, String_int (b_amount item)]) data)"

text \<open>
  The code from each \<open>await\<close> to the next one, or to the end of the handler. An early
  \<open>return\<close> of \<open>handleImport\<close> passes through its \<open>finally\<close>.
\<close>

fun resume_page :: "place \<Rightarrow> reply \<Rightarrow> caller list \<Rightarrow> page \<Rightarrow> handler \<times> page" where
  "resume_page AfterTransactionsSelect r callers p =
     unwind callers
       (setLoading False
          (if reply_error r then setStatus TransactionsLoadError p
           else setStatus NoStatus (p\<lparr>p_transactions := transactions_or_empty r\<rparr>)))"
| "resume_page AfterSubmitInsert r callers p =
     (if reply_error r then unwind callers (setLoading False (setStatus SaveError p))
      else call_loadTransactions (SubmitEnd # callers)
             (p\<lparr>p_form := (p_form p)\<lparr>fm_amount := [], fm_note := []\<rparr>\<rparr>))"
| "resume_page AfterTransactionDelete r callers p =
     (if reply_error r then unwind callers (setLoading False (setStatus DeleteError p))
      else call_loadTransactions (DeleteEnd # callers) p)"
| "resume_page (AfterCategoriesSelect form) r callers p =
     (if reply_error r
      then unwind callers
             (setLoading False ((setStatus CategoryLoadError p)\<lparr>p_categories := defaultCategories\<rparr>))
      else case category_rows r of
        None \<Rightarrow> (Pending (InsertCategories defaultCategories) AfterCategoriesSeed callers, p)
      | Some [] \<Rightarrow> (Pending (InsertCategories defaultCategories) AfterCategoriesSeed callers, p)
      | Some (first # others) \<Rightarrow>
          unwind callers
            (setLoading False
               (if fm_category form \<notin> set (first # others)
                then p\<lparr>p_categories := first # others,
                       p_form := (p_form p)\<lparr>fm_category := or_else (Some first) (hd defaultCategories)\<rparr>\<rparr>
                else p\<lparr>p_categories := first # others\<rparr>)))"
| "resume_page AfterCategoriesSeed r callers p =
     (if reply_error r
      then unwind callers
             (setLoading False ((setStatus CategorySeedError p)\<lparr>p_categories := defaultCategories\<rparr>))
      else (Pending SelectCategories AfterCategoriesReselect callers, p))"
| "resume_page AfterCategoriesReselect r callers p =
     unwind callers
       (setLoading False
          (p\<lparr>p_categories := (case category_rows r of None \<Rightarrow> [] | Some names \<Rightarrow> names)\<rparr>))"
| "resume_page (AfterCategoryInsert form) r callers p =
     (if reply_error r then unwind callers (setLoading False (setStatus CategoryAddError p))
      else call_loadCategories form (AddCategoryEnd # callers) (p\<lparr>p_categoryDraft := []\<rparr>))"
| "resume_page (AfterCategoryRename form oldName nextName) r callers p =
     (if reply_error r then unwind callers (setLoading False (setStatus CategoryUpdateError p))
      else (Pending (RecategoriseTransactions oldName nextName)
              (AfterRecategorise form oldName nextName) callers, p))"
| "resume_page (AfterRecategorise form oldName nextName) r callers p =
     call_loadCategories form (RenameEnd form oldName nextName # callers) p"
| "resume_page (AfterCount form name) r callers p =
     (if reply_error r then unwind callers (setStatus CategoryCheckError p)
      else if count_or_0 r > 0 then unwind callers (show_event CategoryInUseAlert p)
      else case in_world (confirm (DeleteCategoryPrompt name)) p of
        (answer, p') \<Rightarrow>
          if \<not> answer then unwind callers p'
          else (Pending (DeleteCategory name) (AfterCategoryDelete form name) callers,
                setLoading True p'))"
| "resume_page (AfterCategoryDelete form name) r callers p =
     (if reply_error r then unwind callers (setLoading False (setStatus CategoryDeleteError p))
      else (Pending (DeleteBudgetsOfCategory name) (AfterBudgetsOfCategoryDelete form name) callers,
            p))"
| "resume_page (AfterBudgetsOfCategoryDelete form name) r callers p =
     call_loadCategories form (DeleteCategoryEnd form name # callers) p"
| "resume_page (AfterBudgetUpsert rt month) r callers p =
     (if reply_error r then unwind callers (setLoading False (setStatus BudgetSaveError p))
      else call_loadBudgets rt month (SaveBudgetEnd # callers) p)"
| "resume_page (AfterCopySelect rt month) r callers p =
     (if reply_error r then unwind callers (setLoading False (setStatus BudgetLoadError p))
      else case budget_rows r of
        None \<Rightarrow> unwind callers (setLoading False (setStatus NoSourceBudgets p))
      | Some [] \<Rightarrow> unwind callers (setLoading False (setStatus NoSourceBudgets p))
      | Some (first # others) \<Rightarrow>
          (Pending (DeleteBudgetsOfMonth month) (AfterCopyDelete rt month (first # others)) callers, p))"
| "resume_page (AfterCopyDelete rt month data) r callers p =
     (if reply_error r then unwind callers (setLoading False (setStatus BudgetDeleteError p))
      else (Pending (InsertBudgetRows (copy_payload month data)) (AfterCopyInsert rt month) callers,
            p))"
| "resume_page (AfterCopyInsert rt month) r callers p =
     (if reply_error r then unwind callers (setLoading False (setStatus BudgetCopyError p))
      else call_loadBudgets rt month (CopyEnd # callers) p)"
| "resume_page AfterAllBudgetsSelect r callers p =
     (if reply_error r then unwind callers (setStatus BudgetFileError p)
      else unwind callers
             (show_event
                (Download (js ''kakeibo-budgets-all.csv'')
                   (budgets_file (case budget_rows r of None \<Rightarrow> [] | Some rows \<Rightarrow> rows)))
                p))"
| "resume_page (AfterFileText importKind form rt month) r callers p =
     (case importKind of
        TransactionsFile \<Rightarrow>
          (case import_transactions (file_content r) of
             NoCsvData \<Rightarrow> unwind callers (import_finally (setStatus NoDataInFile p))
           | WrongCsvFormat \<Rightarrow> unwind callers (import_finally (setStatus TransactionsFileWrong p))
           | NothingToImport \<Rightarrow> unwind callers (import_finally (setStatus NoTransactionsInFile p))
           | InsertPayload payload \<Rightarrow>
               (Pending (InsertTransactions payload) AfterTransactionsImport callers, p))
      | CategoriesFile \<Rightarrow>
          (case import_categories (file_content r) of
             FileNoData \<Rightarrow> unwind callers (import_finally (setStatus NoDataInFile p))
           | FileWrong \<Rightarrow> unwind callers (import_finally (setStatus CategoriesFileWrong p))
           | FileNothing \<Rightarrow> unwind callers (import_finally (setStatus NoCategoriesInFile p))
           | FilePayload payload \<Rightarrow>
               (Pending (InsertCategories payload) (AfterCategoriesImport form) callers, p))
      | BudgetsFile \<Rightarrow>
          (case import_budgets (file_content r) of
             FileNoData \<Rightarrow> unwind callers (import_finally (setStatus NoDataInFile p))
           | FileWrong \<Rightarrow> unwind callers (import_finally (setStatus BudgetsFileWrong p))
           | FileNothing \<Rightarrow> unwind callers (import_finally (setStatus NoBudgetsInFile p))
           | FilePayload payload \<Rightarrow>
               (Pending (InsertBudgetRows payload) (AfterBudgetsImport rt month) callers, p)))"
| "resume_page AfterTransactionsImport r callers p =
     (if reply_error r then unwind callers (import_finally (setStatus TransactionsImportError p))
      else call_loadTransactions (TransactionsImportEnd # callers) p)"
| "resume_page (AfterCategoriesImport form) r callers p =
     (if reply_error r then unwind callers (import_finally (setStatus CategoriesImportError p))
      else call_loadCategories form (CategoriesImportEnd # callers) p)"
| "resume_page (AfterBudgetsImport rt month) r callers p =
     (if reply_error r then unwind callers (import_finally (setStatus BudgetsImportError p))
      else call_loadBudgets rt month (BudgetsImportEnd # callers) p)"
| "resume_page AfterSignIn r callers p =
     unwind callers
       (setLoading False (setStatus (if reply_error r then LoginFailed else LoginMailSent) p))"
| "resume_page AfterSignOut r callers p =
     unwind callers
       (p\<lparr>p_transactions := [], p_categories := defaultCategories,
          p_world := (p_world p)\<lparr>w_budgets := [], w_budgetDrafts := []\<rparr>\<rparr>)"

text \<open>One step of a handler, and a handler stepping alone \<open>n\<close> times.\<close>

fun step_page ::
  "(budget_row \<Rightarrow> budget_row list \<Rightarrow> budget_row list option) \<Rightarrow> handler \<Rightarrow> page \<Rightarrow> handler \<times> page"
  where
  "step_page upsert (Pending a pl callers) p =
     (case serve_page upsert a p of (r, p') \<Rightarrow> (Responded r pl callers, p'))"
| "step_page upsert (Responded r pl callers) p = resume_page pl r callers p"
| "step_page upsert (InLoadBudgets t callers) p =
     (case in_world (step_task t) p of
        (Returned, p') \<Rightarrow> unwind callers p'
      | (t', p') \<Rightarrow> (InLoadBudgets t' callers, p'))"
| "step_page upsert Ended p = (Ended, p)"

fun steps_page ::
  "(budget_row \<Rightarrow> budget_row list \<Rightarrow> budget_row list option) \<Rightarrow> nat \<Rightarrow> handler \<times> page
     \<Rightarrow> handler \<times> page" where
  "steps_page upsert 0 s = s"
| "steps_page upsert (Suc n) s = steps_page upsert n (step_page upsert (fst s) (snd s))"

section \<open>Notions used to state what a failure leaves\<close>



section \<open>Concrete inputs\<close>

definition example_budget_rows :: "budget_row list" where
  "example_budget_rows =
     [\<lparr>b_month = js ''2024-01'', b_category = [0x98DF, 0x8CBB], b_amount = 10000\<rparr>,
      \<lparr>b_month = js ''2024-01'', b_category = [0x65C5, 0x884C], b_amount = 5000\<rparr>]"


definition example_spend :: "transaction list" where
  "example_spend =
     [\<lparr>t_date = js ''2024-01-05'', t_amount = 12000, t_type = js ''expense'',
       t_purpose = js ''consumption'', t_category = [0x98DF, 0x8CBB], t_note = None\<rparr>]"

definition stale_filters :: filters where
  "stale_filters = initial_filters\<lparr>f_category := [0x65C5, 0x884C]\<rparr>"

definition march :: jsstring where
  "march = js ''2024-03''"

definition february_rows :: "budget_row list" where
  "february_rows =
     [\<lparr>b_month = js ''2024-02'', b_category = [0x98DF, 0x8CBB], b_amount = 10000\<rparr>]"

definition fresh_world :: "budget_row list \<Rightarrow> bool list \<Rightarrow> bool list \<Rightarrow> world" where
  "fresh_world rows failures answers =
     \<lparr>w_db = rows, w_failures = failures, w_answers = answers, w_storage = Map.empty,
      w_trace = [], w_budgets = [], w_budgetDrafts = [], w_status = NoStatus,
      w_loading = False\<rparr>"

definition utc_runtime :: runtime where
  "utc_runtime = \<lparr>tz_offset_minutes = 0, now_ms = 1709251200000\<rparr>"


definition tokyo_runtime :: runtime where
  "tokyo_runtime = \<lparr>tz_offset_minutes = 540, now_ms = 1709251200000\<rparr>"

definition ex_items :: "transaction list" where
  "ex_items =
     [\<lparr>t_date = js ''2024-01-05'', t_amount = 1200, t_type = js ''expense'',
       t_purpose = js ''waste'', t_category = [0x98DF, 0x8CBB], t_note = Some (js ''a \"b\", c'')\<rparr>,
      \<lparr>t_date = js ''2024-01-10'', t_amount = 50000, t_type = js ''income'',
       t_purpose = js ''consumption'', t_category = [0x52B4, 0x50CD], t_note = None\<rparr>]"

definition tie_budgets :: "prim jsobj" where
  "tie_budgets =
     budgets_of [\<lparr>b_month = js ''2024-01'', b_category = [0x98DF, 0x8CBB], b_amount = 4000\<rparr>]"

definition tie_items :: "transaction list" where
  "tie_items =
     [\<lparr>t_date = js ''2024-01-05'', t_amount = 2300, t_type = js ''expense'',
       t_purpose = js ''consumption'', t_category = [0x98DF, 0x8CBB], t_note = None\<rparr>]"




section \<open>Properties of the filter engine\<close>

lemma item_passes_iff:
  "item_passes lower f item \<longleftrightarrow>
     (f_type f = js ''all'' \<or> t_type item = f_type f)
   \<and> (f_purpose f = js ''all'' \<or> t_type item \<noteq> js ''expense''
        \<or> t_purpose item = f_purpose f)
   \<and> (f_category f = js ''all'' \<or> t_category item = f_category f)
   \<and> (f_query f = [] \<or> js_includes (lower (note_text item)) (lower (f_query f)))
   \<and> (f_dateFrom f = [] \<or> \<not> js_lt (t_date item) (f_dateFrom f))
   \<and> (f_dateTo f = [] \<or> \<not> js_lt (f_dateTo f) (t_date item))"
  unfolding item_passes_def if_bool_eq_conj by blast

lemma filter_mono_set:
  assumes "\<And>x. P x \<Longrightarrow> Q x"
  shows "set (filter P xs) \<subseteq> set (filter Q xs)"
  using assms by auto

text \<open>
  Claim C1. The filtered list is a subsequence of the list it filters (the month's items,
  themselves a subsequence of all transactions), and putting any one of the six predicates
  back to its pass-all value (\<open>'all'\<close> for type, purpose and category, the empty string
  for query, date-from and date-to) gives a result that contains every item of the
  original result.
\<close>

theorem filteredItems_subseq_and_relaxation:
  "subseq (filteredItems lower f (monthItems ts m)) (monthItems ts m)
   \<and> subseq (filteredItems lower f (monthItems ts m)) ts
   \<and> set (filteredItems lower f items) \<subseteq> set items
   \<and> set (filteredItems lower f items)
        \<subseteq> set (filteredItems lower (f\<lparr>f_type := js ''all''\<rparr>) items)
   \<and> set (filteredItems lower f items)
        \<subseteq> set (filteredItems lower (f\<lparr>f_purpose := js ''all''\<rparr>) items)
   \<and> set (filteredItems lower f items)
        \<subseteq> set (filteredItems lower (f\<lparr>f_category := js ''all''\<rparr>) items)
   \<and> set (filteredItems lower f items)
        \<subseteq> set (filteredItems lower (f\<lparr>f_query := []\<rparr>) items)
   \<and> set (filteredItems lower f items)
        \<subseteq> set (filteredItems lower (f\<lparr>f_dateFrom := []\<rparr>) items)
   \<and> set (filteredItems lower f items)
        \<subseteq> set (filteredItems lower (f\<lparr>f_dateTo := []\<rparr>) items)"
proof -
  have s1: "subseq (filteredItems lower f (monthItems ts m)) (monthItems ts m)"
    by (simp add: filteredItems_def)
  have s2: "subseq (monthItems ts m) ts"
    by (simp add: monthItems_def)
  have r1: "set (filteredItems lower f items)
        \<subseteq> set (filteredItems lower (f\<lparr>f_type := js ''all''\<rparr>) items)"
    unfolding filteredItems_def
    by (rule filter_mono_set) (simp add: item_passes_iff, blast?)
  have r2: "set (filteredItems lower f items)
        \<subseteq> set (filteredItems lower (f\<lparr>f_purpose := js ''all''\<rparr>) items)"
    unfolding filteredItems_def
    by (rule filter_mono_set) (simp add: item_passes_iff, blast?)
  have r3: "set (filteredItems lower f items)
        \<subseteq> set (filteredItems lower (f\<lparr>f_category := js ''all''\<rparr>) items)"
    unfolding filteredItems_def
    by (rule filter_mono_set) (simp add: item_passes_iff, blast?)
  have r4: "set (filteredItems lower f items)
        \<subseteq> set (filteredItems lower (f\<lparr>f_query := []\<rparr>) items)"
    unfolding filteredItems_def
    by (rule filter_mono_set) (simp add: item_passes_iff, blast?)
  have r5: "set (filteredItems lower f items)
        \<subseteq> set (filteredItems lower (f\<lparr>f_dateFrom := []\<rparr>) items)"
    unfolding filteredItems_def
    by (rule filter_mono_set) (simp add: item_passes_iff, blast?)
  have r6: "set (filteredItems lower f items)
        \<subseteq> set (filteredItems lower (f\<lparr>f_dateTo := []\<rparr>) items)"
    unfolding filteredItems_def
    by (rule filter_mono_set) (simp add: item_passes_iff, blast?)
  have s0: "set (filteredItems lower f items) \<subseteq> set items"
    by (simp add: filteredItems_def)
  from s1 s2 have s3: "subseq (filteredItems lower f (monthItems ts m)) ts"
    by (rule subseq_order.trans)
  from s1 s3 s0 r1 r2 r3 r4 r5 r6 show ?thesis by blast
qed


text \<open>The theorem at a concrete list: one expense of January 2024.\<close>

theorem filteredItems_witness:
  "filteredItems lower_ascii (initial_filters\<lparr>f_type := js ''income''\<rparr>) example_spend = []
   \<and> filteredItems lower_ascii initial_filters example_spend = example_spend"
  using filteredItems_subseq_and_relaxation
    [of lower_ascii "initial_filters\<lparr>f_type := js ''income''\<rparr>" "[]" "[]" example_spend]
  by (simp add: filteredItems_def item_passes_def initial_filters_def example_spend_def js_def)

section \<open>Properties of the budget evaluator\<close>





















section \<open>Properties of the filter corrections\<close>

text \<open>
  Claim C8 says that after the corrections have run, a category filter that is not among the
  options of the current type filter is \<open>'all'\<close>. The corrections test the category only
  under the type filters \<open>income\<close> and \<open>expense\<close>. Under the type filter \<open>'all'\<close> a
  category filter that has left the category list (here a category that is in neither
  list) stays as it is: the state is a fixed point of the corrections and its category
  filter is none of \<open>filterCategoryOptions\<close>.
\<close>

theorem filterCorrections_keeps_stale_category_under_all:
  "filterCorrections defaultCategories stale_filters = stale_filters
   \<and> f_type stale_filters = js ''all''
   \<and> f_category stale_filters \<noteq> js ''all''
   \<and> f_category stale_filters \<notin> set (filterCategoryOptions defaultCategories stale_filters)"
  by (simp add: filterCorrections_def stale_filters_def initial_filters_def
      filterCategoryOptions_def defaultCategories_def incomeCategories_def js_def)

lemma array_from_set_set: "set (array_from_set xs) = set xs"
  by (induction xs) auto

text \<open>
  Extra X2 (the part of claim C8 that the corrections do restore). One run of the
  corrections keeps the type filter, puts the purpose filter to \<open>'all'\<close> unless the type
  filter is \<open>expense\<close>, and under the type filters \<open>income\<close> and \<open>expense\<close> leaves a
  category filter that is \<open>'all'\<close> or one of the options; a second run changes nothing.
\<close>

theorem filterCorrections_restores:
  "f_type (filterCorrections categories fl) = f_type fl
   \<and> (f_type fl \<noteq> js ''expense'' \<longrightarrow> f_purpose (filterCorrections categories fl) = js ''all'')
   \<and> (f_type fl = js ''income'' \<or> f_type fl = js ''expense'' \<longrightarrow>
        f_category (filterCorrections categories fl) = js ''all''
        \<or> f_category (filterCorrections categories fl)
             \<in> set (filterCategoryOptions categories (filterCorrections categories fl)))
   \<and> filterCorrections categories (filterCorrections categories fl) = filterCorrections categories fl"
proof -
  have ie: "js ''income'' \<noteq> js ''expense''" by (simp add: js_def)
  show ?thesis
    using ie by (auto simp: filterCorrections_def filterCategoryOptions_def Let_def)
qed

text \<open>
  The theorem on a stale category and the purpose \<open>waste\<close>: both are reset under the
  type filter \<open>expense\<close>, only the purpose under \<open>'all'\<close>.
\<close>

theorem filterCorrections_restores_witness:
  "filterCorrections defaultCategories
     (stale_filters\<lparr>f_type := js ''expense'', f_purpose := js ''waste''\<rparr>)
     = initial_filters\<lparr>f_type := js ''expense'', f_purpose := js ''waste''\<rparr>
   \<and> filterCorrections defaultCategories (stale_filters\<lparr>f_purpose := js ''waste''\<rparr>)
     = stale_filters"
  using filterCorrections_restores [of defaultCategories
      "stale_filters\<lparr>f_type := js ''expense'', f_purpose := js ''waste''\<rparr>"]
  by (simp add: filterCorrections_def stale_filters_def initial_filters_def
      defaultCategories_def incomeCategories_def js_def)

section \<open>Properties of the rollover policy\<close>

lemma same_about_refl: "same_about t w w"
  by (simp add: same_about_def)

lemma same_about_trans: "same_about t a b \<Longrightarrow> same_about t b c \<Longrightarrow> same_about t a c"
  by (simp add: same_about_def)

lemma same_about_truthy:
  "same_about t w w' \<Longrightarrow> getItem_truthy w (storageKey t) \<Longrightarrow> getItem_truthy w' (storageKey t)"
  by (simp add: same_about_def getItem_truthy_def)

lemma storageKey_inj: "storageKey a = storageKey b \<longleftrightarrow> a = b"
  by (simp add: storageKey_def)

lemma next_request_same: "next_request w = (b, w') \<Longrightarrow> same_about t w w'"
  by (auto simp: next_request_def same_about_def rollover_prompts_def split: list.splits)

lemma select_budgets_same: "select_budgets m w = (r, w') \<Longrightarrow> same_about t w w'"
  by (auto simp: select_budgets_def split: prod.splits if_splits dest: next_request_same)

lemma next_request_frame:
  "next_request w = (b, w') \<Longrightarrow>
     w_trace w' = w_trace w \<and> w_storage w' = w_storage w \<and> w_db w' = w_db w
     \<and> w_answers w' = w_answers w \<and> w_budgets w' = w_budgets w
     \<and> w_budgetDrafts w' = w_budgetDrafts w"
  by (auto simp: next_request_def split: list.splits)

lemma insert_budgets_same: "insert_budgets p w = (r, w') \<Longrightarrow> same_about t w w'"
  by (auto simp: insert_budgets_def same_about_def rollover_prompts_def
      split: prod.splits if_splits dest!: next_request_frame)

lemma store_loaded_same: "same_about t w (store_loaded d w)"
  by (simp add: store_loaded_def same_about_def rollover_prompts_def)

lemma status_same: "same_about t w (w\<lparr>w_status := s\<rparr>)"
  by (simp add: same_about_def rollover_prompts_def)

lemma setItem_same: "m \<noteq> t \<Longrightarrow> same_about t w (setItem (storageKey m) v w)"
  by (simp add: setItem_def same_about_def rollover_prompts_def storageKey_inj)

lemma confirm_auto_same:
  "m \<noteq> t \<Longrightarrow> confirm (AutoCopyPrompt src m) w = (a, w') \<Longrightarrow> same_about t w w'"
  by (auto simp: confirm_def same_about_def rollover_prompts_def split: list.splits)

lemma db_same: "same_about t w (w\<lparr>w_db := rows\<rparr>)"
  by (simp add: same_about_def rollover_prompts_def)

text \<open>A load of a month whose flag is set adds no event and leaves \<open>localStorage\<close> alone.\<close>

lemma maybeAuto_flagged: "getItem_truthy w (storageKey m) \<Longrightarrow> maybeAutoCopyBudgets rt m w = w"
  by (simp add: maybeAutoCopyBudgets.simps)

lemma select_budgets_frame:
  "select_budgets m w = (r, w') \<Longrightarrow>
     w_trace w' = w_trace w \<and> w_storage w' = w_storage w \<and> w_db w' = w_db w
     \<and> w_answers w' = w_answers w \<and> w_budgets w' = w_budgets w
     \<and> w_budgetDrafts w' = w_budgetDrafts w"
  by (auto simp: select_budgets_def split: prod.splits if_splits dest!: next_request_frame)

lemma store_loaded_frame:
  "w_trace (store_loaded d w) = w_trace w \<and> w_storage (store_loaded d w) = w_storage w
   \<and> w_db (store_loaded d w) = w_db w \<and> w_answers (store_loaded d w) = w_answers w
   \<and> w_failures (store_loaded d w) = w_failures w"
  by (simp add: store_loaded_def)

lemma load_flagged_trace:
  assumes "getItem_truthy w (storageKey m)"
  shows "w_trace (loadBudgets rt m w) = w_trace w \<and> w_storage (loadBudgets rt m w) = w_storage w"
proof (cases "m = []")
  case True
  then show ?thesis by (simp add: loadBudgets.simps)
next
  case False
  obtain r w1 where sel: "select_budgets m w = (r, w1)" by (cases "select_budgets m w")
  note fr = select_budgets_frame [OF sel]
  show ?thesis
  proof (cases r)
    case None
    with False sel fr show ?thesis by (simp add: loadBudgets.simps)
  next
    case (Some data)
    have "getItem_truthy (store_loaded data w1) (storageKey m)"
      using assms fr by (simp add: getItem_truthy_def store_loaded_frame)
    then have "maybeAutoCopyBudgets rt m (store_loaded data w1) = store_loaded data w1"
      by (rule maybeAuto_flagged)
    moreover have "loadBudgets rt m w =
        (if data = [] then maybeAutoCopyBudgets rt m (store_loaded data w1) else store_loaded data w1)"
      using False sel Some by (simp add: loadBudgets.simps)
    ultimately have "loadBudgets rt m w = store_loaded data w1" by (cases "data = []") simp_all
    with fr show ?thesis by (simp add: store_loaded_frame)
  qed
qed

lemma select_budgets_ok:
  "w_failures w = False # fs \<Longrightarrow>
     select_budgets m w = (Some (filter (\<lambda>r. b_month r = m) (w_db w)), w\<lparr>w_failures := fs\<rparr>)"
  by (simp add: select_budgets_def next_request_def)

lemma confirm_eq:
  "confirm p w = (next_answer w, w\<lparr>w_answers := tl (w_answers w), w_trace := w_trace w @ [Confirm p (next_answer w)]\<rparr>)"
  by (cases "w_answers w") (simp_all add: confirm_def next_answer_def)

lemma insert_budgets_frame:
  "insert_budgets p w = (r, w') \<Longrightarrow>
     w_trace w' = w_trace w \<and> w_storage w' = w_storage w
     \<and> w_answers w' = w_answers w \<and> w_budgets w' = w_budgets w
     \<and> w_budgetDrafts w' = w_budgetDrafts w"
  by (auto simp: insert_budgets_def split: prod.splits if_splits dest!: next_request_frame)

section \<open>Calls that overlap\<close>

lemma steps_alone_add: "steps_alone (a + b) s = steps_alone b (steps_alone a s)"
  by (induction a arbitrary: s) simp_all

text \<open>
  A call that takes all its steps with nothing between them ends as \<open>loadBudgets\<close> says.
\<close>

lemma loadBudgets_uninterrupted:
  "\<exists>n. steps_alone n (enter_loadBudgets rt targetMonth w)
         = (Returned, loadBudgets rt targetMonth w)"
  and "\<exists>n. steps_alone n (enter_maybeAutoCopyBudgets rt targetMonth w)
           = (Returned, maybeAutoCopyBudgets rt targetMonth w)"
proof (induction rt targetMonth w and rt targetMonth w rule: loadBudgets_maybeAutoCopyBudgets.induct)
  case (1 rt targetMonth w)
  show ?case
  proof (cases "targetMonth = []")
    case True
    then have "steps_alone 0 (enter_loadBudgets rt targetMonth w)
        = (Returned, loadBudgets rt targetMonth w)"
      by (simp add: enter_loadBudgets_def loadBudgets.simps)
    then show ?thesis by blast
  next
    case False
    obtain r w1 where sel: "select_budgets targetMonth w = (r, w1)"
      by (cases "select_budgets targetMonth w")
    show ?thesis
    proof (cases r)
      case None
      with False sel have "steps_alone 2 (enter_loadBudgets rt targetMonth w)
          = (Returned, loadBudgets rt targetMonth w)"
        by (simp add: enter_loadBudgets_def loadBudgets.simps serve_def numeral_2_eq_2)
      then show ?thesis by blast
    next
      case (Some data)
      show ?thesis
      proof (cases "data = []")
        case True
        from 1 [OF False sel [symmetric] Some True]
        obtain n where n:
          "steps_alone n (enter_maybeAutoCopyBudgets rt targetMonth (store_loaded data w1))
            = (Returned, maybeAutoCopyBudgets rt targetMonth (store_loaded data w1))" by blast
        from False sel Some True
        have "steps_alone 2 (enter_loadBudgets rt targetMonth w)
            = enter_maybeAutoCopyBudgets rt targetMonth (store_loaded data w1)"
          by (simp add: enter_loadBudgets_def serve_def numeral_2_eq_2 data_or_empty_def)
        with n have "steps_alone (2 + n) (enter_loadBudgets rt targetMonth w)
            = (Returned, maybeAutoCopyBudgets rt targetMonth (store_loaded data w1))"
          by (simp only: steps_alone_add)
        moreover from False sel Some True
        have "loadBudgets rt targetMonth w
            = maybeAutoCopyBudgets rt targetMonth (store_loaded data w1)"
          by (simp add: loadBudgets.simps)
        ultimately show ?thesis by metis
      next
        case ne: False
        with False sel Some
        have "steps_alone 2 (enter_loadBudgets rt targetMonth w)
            = (Returned, loadBudgets rt targetMonth w)"
          by (simp add: enter_loadBudgets_def loadBudgets.simps serve_def numeral_2_eq_2
              data_or_empty_def)
        then show ?thesis by blast
      qed
    qed
  qed
next
  case (2 rt targetMonth w)
  show ?case
  proof (cases "getItem_truthy w (storageKey targetMonth)")
    case True
    then have "steps_alone 0 (enter_maybeAutoCopyBudgets rt targetMonth w)
        = (Returned, maybeAutoCopyBudgets rt targetMonth w)"
      by (simp add: enter_maybeAutoCopyBudgets_def maybeAutoCopyBudgets.simps)
    then show ?thesis by blast
  next
    case False
    let ?prev = "getPreviousMonthFrom rt targetMonth"
    obtain r w1 where sel: "select_budgets ?prev w = (r, w1)"
      by (cases "select_budgets ?prev w")
    show ?thesis
    proof (cases "r = None \<or> r = Some []")
      case True
      with False sel have "steps_alone 2 (enter_maybeAutoCopyBudgets rt targetMonth w)
          = (Returned, maybeAutoCopyBudgets rt targetMonth w)"
        by (auto simp: enter_maybeAutoCopyBudgets_def maybeAutoCopyBudgets.simps serve_def
            numeral_2_eq_2)
      then show ?thesis by blast
    next
      case rows: False
      then obtain data where data: "r = Some data" "data \<noteq> []" by (cases r) auto
      obtain answer w2 where c: "confirm (AutoCopyPrompt ?prev targetMonth)
          (setItem (storageKey targetMonth) (js ''prompted'') w1) = (answer, w2)"
        by (cases "confirm (AutoCopyPrompt ?prev targetMonth)
          (setItem (storageKey targetMonth) (js ''prompted'') w1)")
      show ?thesis
      proof (cases answer)
        case no: False
        with False sel data c
        have "steps_alone 2 (enter_maybeAutoCopyBudgets rt targetMonth w)
          = (Returned, maybeAutoCopyBudgets rt targetMonth w)"
          by (simp add: enter_maybeAutoCopyBudgets_def maybeAutoCopyBudgets.simps serve_def
              numeral_2_eq_2)
        then show ?thesis by blast
      next
        case yes: True
        obtain e w3 where ins: "insert_budgets (copy_payload targetMonth data) w2 = (e, w3)"
          by (cases "insert_budgets (copy_payload targetMonth data) w2")
        show ?thesis
        proof (cases e)
          case True
          with False sel data c yes ins
          have "steps_alone 4 (enter_maybeAutoCopyBudgets rt targetMonth w)
            = (Returned, maybeAutoCopyBudgets rt targetMonth w)"
            by (simp add: enter_maybeAutoCopyBudgets_def maybeAutoCopyBudgets.simps serve_def
                eval_nat_numeral data_or_empty_def)
          then show ?thesis by blast
        next
          case ok: False
          from yes ok 2 [OF False sel [symmetric] data(1) data(2) c [symmetric] _ ins [symmetric]]
          obtain n where n: "steps_alone n (enter_loadBudgets rt targetMonth w3)
            = (Returned, loadBudgets rt targetMonth w3)" by auto
          from False sel data c yes ins ok
          have "steps_alone 4 (enter_maybeAutoCopyBudgets rt targetMonth w)
            = enter_loadBudgets rt targetMonth w3"
            by (simp add: enter_maybeAutoCopyBudgets_def serve_def eval_nat_numeral
                data_or_empty_def)
          with n have "steps_alone (4 + n) (enter_maybeAutoCopyBudgets rt targetMonth w)
            = (Returned, loadBudgets rt targetMonth w3)"
            by (simp only: steps_alone_add)
          moreover from False sel data c yes ins ok
          have "maybeAutoCopyBudgets rt targetMonth w = loadBudgets rt targetMonth w3"
            by (simp add: maybeAutoCopyBudgets.simps)
          ultimately show ?thesis by metis
        qed
      qed
    qed
  qed
qed

lemma serve_same: "serve req w = (resp, w') \<Longrightarrow> same_about t w w'"
  by (cases req)
     (auto simp: serve_def split: prod.splits option.splits
        dest: select_budgets_same insert_budgets_same)

lemma past_flag_test_waiting:
  "past_flag_test m (Resuming resp p) = past_flag_test m (Waiting req p)"
  by (cases p) simp_all

text \<open>
  Once the flag of a month is set, a step of a call that has not passed the month's flag
  test shows no rollover prompt for the month, keeps the flag, and does not take the call
  past the test.
\<close>

lemma step_task_guard:
  assumes step: "step_task t w = (t', w')"
    and flag: "getItem_truthy w (storageKey m)"
    and before: "\<not> past_flag_test m t"
  shows "same_about m w w' \<and> \<not> past_flag_test m t'"
proof (cases t)
  case (Waiting req p)
  with step obtain resp where s: "serve req w = (resp, w')" and t': "t' = Resuming resp p"
    by (auto split: prod.splits)
  from s have "same_about m w w'" by (rule serve_same)
  with before Waiting t' show ?thesis by (simp add: past_flag_test_waiting [of m resp p req])
next
  case (Resuming resp p)
  show ?thesis
  proof (cases p)
    case (AfterTargetFetch rt tm)
    let ?w1 = "store_loaded (data_or_empty resp) w"
    have f1: "getItem_truthy ?w1 (storageKey m)"
      using flag by (simp add: getItem_truthy_def store_loaded_def)
    have e: "\<not> past_flag_test m (fst (enter_maybeAutoCopyBudgets rt tm ?w1))"
      "snd (enter_maybeAutoCopyBudgets rt tm ?w1) = ?w1"
      using f1 by (auto simp: enter_maybeAutoCopyBudgets_def)
    from step Resuming AfterTargetFetch e show ?thesis
      by (auto simp: status_same store_loaded_same split: if_splits)
  next
    case (AfterPreviousFetch rt tm)
    with before Resuming have ne: "tm \<noteq> m" by simp
    show ?thesis
    proof (cases "r_error resp \<or> r_data resp = None \<or> r_data resp = Some []")
      case True
      with step Resuming AfterPreviousFetch ne show ?thesis
        by (auto simp: setItem_same)
    next
      case False
      let ?w1 = "setItem (storageKey tm) (js ''prompted'') w"
      obtain a w2 where c: "confirm (AutoCopyPrompt (getPreviousMonthFrom rt tm) tm) ?w1 = (a, w2)"
        by (cases "confirm (AutoCopyPrompt (getPreviousMonthFrom rt tm) tm) ?w1")
      have "same_about m w ?w1" using ne by (rule setItem_same)
      moreover have "same_about m ?w1 w2" using ne c by (rule confirm_auto_same)
      ultimately have "same_about m w w2" by (rule same_about_trans)
      with step Resuming AfterPreviousFetch False c show ?thesis
        by (auto split: if_splits)
    qed
  next
    case (AfterInsert rt tm)
    with step Resuming show ?thesis
      by (auto simp: enter_loadBudgets_def status_same same_about_refl split: if_splits)
  qed
next
  case Returned
  with step show ?thesis by (auto simp: same_about_refl)
qed

lemma exec_guard:
  "getItem_truthy w (storageKey m) \<Longrightarrow> \<forall>t \<in> set ts. \<not> past_flag_test m t \<Longrightarrow>
   same_about m w (snd (exec ms (ts, w)))"
proof (induction ms arbitrary: ts w)
  case Nil
  then show ?case by (simp add: same_about_refl)
next
  case (Cons mv ms)
  show ?case
  proof (cases mv)
    case (Call rt tm)
    obtain t w' where e: "enter_loadBudgets rt tm w = (t, w')"
      by (cases "enter_loadBudgets rt tm w")
    then have "w' = w" "\<not> past_flag_test m t"
      by (auto simp: enter_loadBudgets_def split: if_splits)
    with Cons.prems have "same_about m w (snd (exec ms (ts @ [t], w)))"
      by (intro Cons.IH) auto
    with Call e \<open>w' = w\<close> show ?thesis by simp
  next
    case (Advance i)
    show ?thesis
    proof (cases "i < length ts")
      case True
      obtain t w' where s: "step_task (ts ! i) w = (t, w')"
        by (cases "step_task (ts ! i) w")
      from True Cons.prems(2) have "\<not> past_flag_test m (ts ! i)" by simp
      from step_task_guard [OF s Cons.prems(1) this]
      have same: "same_about m w w'" and t: "\<not> past_flag_test m t" by simp_all
      from same Cons.prems(1) have "getItem_truthy w' (storageKey m)"
        by (rule same_about_truthy)
      moreover from t Cons.prems(2) have "\<forall>u \<in> set (ts[i := t]). \<not> past_flag_test m u"
        by (auto dest: set_update_subset_insert [THEN subsetD])
      ultimately have "same_about m w' (snd (exec ms (ts[i := t], w')))"
        by (rule Cons.IH)
      with same have "same_about m w (snd (exec ms (ts[i := t], w')))"
        by (rule same_about_trans)
      with Advance True s show ?thesis by simp
    next
      case False
      with Advance Cons show ?thesis by simp
    qed
  next
    case (TableChanged rows)
    have "same_about m w (w\<lparr>w_db := rows\<rparr>)" by (rule db_same)
    moreover have "same_about m (w\<lparr>w_db := rows\<rparr>) (snd (exec ms (ts, w\<lparr>w_db := rows\<rparr>)))"
      using Cons.prems by (intro Cons.IH) (simp_all add: getItem_truthy_def)
    ultimately show ?thesis using TableChanged by (simp add: same_about_trans)
  qed
qed

text \<open>
  Extra X1 (the prompt guard of claim C4, for the month the policy fetches). The target
  month has no stored budgets, the month the policy takes for the previous one
  (\<open>getPreviousMonthFrom\<close>) has some, the month's flag is not set, and the two fetches of
  the call succeed. Then a call of \<open>loadBudgets\<close> that runs from its start to its end
  sets the flag to \<open>'prompted'\<close> and after that shows the rollover prompt, once, and does
  nothing else the user can see, whatever the answer and whatever the insert and the
  reload do. If none of the other calls in flight has already passed the month's flag
  test, no further rollover prompt is shown for the month from then on, through any later
  calls, steps of calls in any order and changes of the table: the prompts for it are the
  earlier ones and this one.
\<close>

theorem rollover_prompts_once:
  assumes month: "targetMonth \<noteq> []"
    and empty: "filter (\<lambda>r. b_month r = targetMonth) (w_db w) = []"
    and prior: "filter (\<lambda>r. b_month r = getPreviousMonthFrom rt targetMonth) (w_db w) \<noteq> []"
    and unset: "w_storage w (storageKey targetMonth) = None"
    and reads: "w_failures w = False # False # fs"
    and others: "\<forall>t \<in> set ts. \<not> past_flag_test targetMonth t"
  shows "w_trace (loadBudgets rt targetMonth w)
           = w_trace w @ [SetItem (storageKey targetMonth) (js ''prompted''),
                          Confirm (AutoCopyPrompt (getPreviousMonthFrom rt targetMonth) targetMonth)
                            (next_answer w)]
     \<and> w_storage (loadBudgets rt targetMonth w) (storageKey targetMonth) = Some (js ''prompted'')
     \<and> rollover_prompts targetMonth (snd (exec later (ts, loadBudgets rt targetMonth w)))
           = rollover_prompts targetMonth w
               @ [Confirm (AutoCopyPrompt (getPreviousMonthFrom rt targetMonth) targetMonth)
                    (next_answer w)]"
proof -
  let ?key = "storageKey targetMonth"
  let ?src = "getPreviousMonthFrom rt targetMonth"
  let ?data = "filter (\<lambda>r. b_month r = ?src) (w_db w)"
  let ?w1 = "store_loaded [] (w\<lparr>w_failures := False # fs\<rparr>)"
  let ?w2 = "?w1\<lparr>w_failures := fs\<rparr>"
  let ?w3 = "setItem ?key (js ''prompted'') ?w2"
  let ?ev = "[SetItem ?key (js ''prompted''), Confirm (AutoCopyPrompt ?src targetMonth) (next_answer w)]"
  have l1: "loadBudgets rt targetMonth w = maybeAutoCopyBudgets rt targetMonth ?w1"
    using month empty select_budgets_ok [OF reads, of targetMonth]
    by (simp add: loadBudgets.simps)
  have nf: "\<not> getItem_truthy ?w1 ?key"
    using unset by (simp add: getItem_truthy_def store_loaded_def)
  have sel: "select_budgets ?src ?w1 = (Some ?data, ?w2)"
    using select_budgets_ok [of ?w1 fs ?src] by (simp add: store_loaded_def)
  obtain w4 where c: "confirm (AutoCopyPrompt ?src targetMonth) ?w3 = (next_answer w, w4)"
    and w4: "w_trace w4 = w_trace w @ ?ev" "w_storage w4 = (w_storage w)(?key \<mapsto> js ''prompted'')"
    by (simp add: confirm_eq next_answer_def setItem_def store_loaded_def)
  have flagged: "\<And>w'. w_storage w' = w_storage w4 \<Longrightarrow> getItem_truthy w' ?key"
    using w4(2) by (simp add: getItem_truthy_def js_prompted_nonempty)
  have main: "w_trace (maybeAutoCopyBudgets rt targetMonth ?w1) = w_trace w @ ?ev
      \<and> w_storage (maybeAutoCopyBudgets rt targetMonth ?w1) = w_storage w4"
  proof (cases "next_answer w")
    case False
    with nf sel prior c have "maybeAutoCopyBudgets rt targetMonth ?w1 = w4"
      by (simp add: maybeAutoCopyBudgets.simps)
    with w4 show ?thesis by simp
  next
    case True
    obtain e w5 where i: "insert_budgets (copy_payload targetMonth ?data) w4 = (e, w5)"
      by (cases "insert_budgets (copy_payload targetMonth ?data) w4")
    note fr = insert_budgets_frame [OF i]
    show ?thesis
    proof (cases e)
      case failed: True
      with nf sel prior c True i
      have "maybeAutoCopyBudgets rt targetMonth ?w1 = w5\<lparr>w_status := BudgetCopyError\<rparr>"
        by (simp add: maybeAutoCopyBudgets.simps)
      with fr w4 show ?thesis by simp
    next
      case ok: False
      with nf sel prior c True i
      have eq: "maybeAutoCopyBudgets rt targetMonth ?w1 = loadBudgets rt targetMonth w5"
        by (simp add: maybeAutoCopyBudgets.simps)
      have "getItem_truthy w5 ?key" using fr by (intro flagged) simp
      from load_flagged_trace [OF this, where rt = rt] eq fr w4 show ?thesis by simp
    qed
  qed
  let ?after = "loadBudgets rt targetMonth w"
  from main l1 have tr: "w_trace ?after = w_trace w @ ?ev" and st: "w_storage ?after = w_storage w4"
    by simp_all
  have fl: "getItem_truthy ?after ?key" using st by (rule flagged)
  have "same_about targetMonth ?after (snd (exec later (ts, ?after)))"
    using fl others by (rule exec_guard)
  then have "rollover_prompts targetMonth (snd (exec later (ts, ?after)))
      = rollover_prompts targetMonth ?after"
    by (simp add: same_about_def)
  also have "\<dots> = rollover_prompts targetMonth w
      @ [Confirm (AutoCopyPrompt ?src targetMonth) (next_answer w)]"
    using tr by (simp add: rollover_prompts_def)
  finally show ?thesis using tr st w4(2) by simp
qed

lemma prev_of_march: "getPreviousMonthFrom utc_runtime march = js ''2024-02''"
  by code_simp

text \<open>
  The theorem for March 2024 with one budget stored for February, the prompt declined, and
  then a new call, a change of the table and another call, their steps taken in turn.
\<close>

theorem rollover_prompts_once_witness:
  "rollover_prompts march
     (snd (exec [Call utc_runtime march, Call utc_runtime march, Advance 0, Advance 1,
                 TableChanged february_rows, Advance 1, Advance 0, Advance 0, Advance 1]
             ([], loadBudgets utc_runtime march (fresh_world february_rows [False, False] [False]))))
   = [Confirm (AutoCopyPrompt (js ''2024-02'') march) False]
   \<and> w_storage (loadBudgets utc_runtime march (fresh_world february_rows [False, False] [False]))
        (storageKey march) = Some (js ''prompted'')"
proof -
  let ?w = "fresh_world february_rows [False, False] [False]"
  have h1: "march \<noteq> []" by (simp add: march_def js_def)
  have h2: "filter (\<lambda>r. b_month r = march) (w_db ?w) = []"
    by (simp add: fresh_world_def february_rows_def march_def js_def)
  have h3: "filter (\<lambda>r. b_month r = getPreviousMonthFrom utc_runtime march) (w_db ?w) \<noteq> []"
    by (simp add: prev_of_march fresh_world_def february_rows_def)
  have h4: "w_storage ?w (storageKey march) = None" by (simp add: fresh_world_def)
  have h5: "w_failures ?w = False # False # []" by (simp add: fresh_world_def)
  have h6: "\<forall>t \<in> set []. \<not> past_flag_test march t" by simp
  have a: "next_answer ?w = False" by (simp add: next_answer_def fresh_world_def)
  have p: "rollover_prompts march ?w = []" by (simp add: rollover_prompts_def fresh_world_def)
  from rollover_prompts_once [OF h1 h2 h3 h4 h5 h6,
      of "[Call utc_runtime march, Call utc_runtime march, Advance 0, Advance 1,
           TableChanged february_rows, Advance 1, Advance 0, Advance 0, Advance 1]"]
  show ?thesis by (simp add: a p prev_of_march)
qed




section \<open>Properties of the manual copy\<close>





section \<open>What a failure leaves\<close>










text \<open>
  The manual copy as a handler that stops at its \<open>await\<close>s, stepping alone, ends in the
  state that \<open>copyBudgetsFromMonth\<close> gives.
\<close>

lemma steps_alone_Returned: "steps_alone n (Returned, w) = (Returned, w)"
  by (induction n) simp_all

lemma steps_page_add:
  "steps_page upsert (a + b) s = steps_page upsert b (steps_page upsert a s)"
  by (induction a arbitrary: s) simp_all

lemma in_load_alone:
  "steps_alone n (t, w) = (Returned, w') \<Longrightarrow> t \<noteq> Returned \<Longrightarrow> p_world p = w \<Longrightarrow>
   \<exists>k. steps_page upsert k (InLoadBudgets t callers, p) = unwind callers (p\<lparr>p_world := w'\<rparr>)"
proof (induction n arbitrary: t w p)
  case 0
  then show ?case by simp
next
  case (Suc n)
  obtain t1 w1 where s: "step_task t w = (t1, w1)" by (cases "step_task t w")
  with Suc.prems(1) have rest: "steps_alone n (t1, w1) = (Returned, w')" by simp
  show ?case
  proof (cases "t1 = Returned")
    case True
    with rest have "w' = w1" by (simp add: steps_alone_Returned)
    with s True Suc.prems(3)
    have "steps_page upsert 1 (InLoadBudgets t callers, p) = unwind callers (p\<lparr>p_world := w'\<rparr>)"
      by (simp add: in_world_def)
    then show ?thesis ..
  next
    case False
    from Suc.IH [OF rest False, of "p\<lparr>p_world := w1\<rparr>"]
    obtain k where k: "steps_page upsert k (InLoadBudgets t1 callers, p\<lparr>p_world := w1\<rparr>)
        = unwind callers (p\<lparr>p_world := w'\<rparr>)" by auto
    from s False Suc.prems(3)
    have "step_page upsert (InLoadBudgets t callers) p = (InLoadBudgets t1 callers, p\<lparr>p_world := w1\<rparr>)"
      by (cases t1) (simp_all add: in_world_def)
    with k have "steps_page upsert (Suc k) (InLoadBudgets t callers, p)
        = unwind callers (p\<lparr>p_world := w'\<rparr>)" by simp
    then show ?thesis ..
  qed
qed

lemma call_loadBudgets_alone:
  "\<exists>k. steps_page upsert k (call_loadBudgets rt m callers p)
        = unwind callers (p\<lparr>p_world := loadBudgets rt m (p_world p)\<rparr>)"
proof -
  obtain n where n: "steps_alone n (enter_loadBudgets rt m (p_world p))
      = (Returned, loadBudgets rt m (p_world p))"
    using loadBudgets_uninterrupted by blast
  obtain t w where e: "enter_loadBudgets rt m (p_world p) = (t, w)"
    by (cases "enter_loadBudgets rt m (p_world p)")
  show ?thesis
  proof (cases "t = Returned")
    case True
    with n e have "loadBudgets rt m (p_world p) = w" by (simp add: steps_alone_Returned)
    with e True have "steps_page upsert 0 (call_loadBudgets rt m callers p)
        = unwind callers (p\<lparr>p_world := loadBudgets rt m (p_world p)\<rparr>)"
      by (simp add: call_loadBudgets_def in_world_def)
    then show ?thesis ..
  next
    case False
    from n e have "steps_alone n (t, w) = (Returned, loadBudgets rt m (p_world p))" by simp
    from in_load_alone [OF this False, of "p\<lparr>p_world := w\<rparr>" upsert callers]
    obtain k where "steps_page upsert k (InLoadBudgets t callers, p\<lparr>p_world := w\<rparr>)
        = unwind callers (p\<lparr>p_world := loadBudgets rt m (p_world p)\<rparr>)" by auto
    moreover from e False have "call_loadBudgets rt m callers p = (InLoadBudgets t callers, p\<lparr>p_world := w\<rparr>)"
      by (cases t) (simp_all add: call_loadBudgets_def in_world_def)
    ultimately show ?thesis by metis
  qed
qed

lemma copyBudgets_uninterrupted:
  "\<exists>n. steps_page upsert n (copyBudgets rt copyFromMonth month p)
        = (Ended, p\<lparr>p_world := snd (copyBudgetsFromMonth rt copyFromMonth month (p_world p))\<rparr>)"
proof (cases "copyFromMonth = [] \<or> copyFromMonth = month")
  case True
  then have "steps_page upsert 0 (copyBudgets rt copyFromMonth month p)
      = (Ended, p\<lparr>p_world := snd (copyBudgetsFromMonth rt copyFromMonth month (p_world p))\<rparr>)"
    by (auto simp: copyBudgets_def copyBudgetsFromMonth_def setStatus_def)
  then show ?thesis ..
next
  case False
  let ?w = "p_world p"
  obtain a w0 where c: "confirm (ManualCopyPrompt copyFromMonth month) ?w = (a, w0)"
    by (cases "confirm (ManualCopyPrompt copyFromMonth month) ?w")
  show ?thesis
  proof (cases a)
    case declined: False
    with False c have "steps_page upsert 0 (copyBudgets rt copyFromMonth month p)
      = (Ended, p\<lparr>p_world := snd (copyBudgetsFromMonth rt copyFromMonth month (p_world p))\<rparr>)"
      by (simp add: copyBudgets_def copyBudgetsFromMonth_def in_world_def)
    then show ?thesis ..
  next
    case True
    obtain r w1 where sel: "select_budgets copyFromMonth (w0\<lparr>w_loading := True\<rparr>) = (r, w1)"
      by (cases "select_budgets copyFromMonth (w0\<lparr>w_loading := True\<rparr>)")
    show ?thesis
    proof (cases "r = None \<or> r = Some []")
      case stop: True
      with False c True sel have "steps_page upsert 2 (copyBudgets rt copyFromMonth month p)
        = (Ended, p\<lparr>p_world := snd (copyBudgetsFromMonth rt copyFromMonth month (p_world p))\<rparr>)"
        by (auto simp: copyBudgets_def copyBudgetsFromMonth_def in_world_def numeral_2_eq_2
            setLoading_def setStatus_def unwind_def failed_reply_def ok_reply_def budget_rows_def)
      then show ?thesis ..
    next
      case go: False
      then obtain data where data: "r = Some data" "data \<noteq> []" by (cases r) auto
      then obtain first others where fo: "data = first # others" by (cases data) auto
      obtain de w2 where d: "delete_budgets month w1 = (de, w2)"
        by (cases "delete_budgets month w1")
      show ?thesis
      proof (cases de)
        case dfail: True
        with False c True sel data fo d
        have "steps_page upsert 4 (copyBudgets rt copyFromMonth month p)
          = (Ended, p\<lparr>p_world := snd (copyBudgetsFromMonth rt copyFromMonth month (p_world p))\<rparr>)"
          by (simp add: copyBudgets_def copyBudgetsFromMonth_def in_world_def eval_nat_numeral
            setLoading_def setStatus_def unwind_def failed_reply_def ok_reply_def budget_rows_def)
        then show ?thesis ..
      next
        case dok: False
        obtain ie w3 where i: "insert_budgets (copy_payload month data) w2 = (ie, w3)"
          by (cases "insert_budgets (copy_payload month data) w2")
        show ?thesis
        proof (cases ie)
          case ifail: True
          with False c True sel data fo d dok i
          have "steps_page upsert 6 (copyBudgets rt copyFromMonth month p)
            = (Ended, p\<lparr>p_world := snd (copyBudgetsFromMonth rt copyFromMonth month (p_world p))\<rparr>)"
            by (simp add: copyBudgets_def copyBudgetsFromMonth_def in_world_def eval_nat_numeral
              setLoading_def setStatus_def unwind_def failed_reply_def ok_reply_def budget_rows_def)
          then show ?thesis ..
        next
          case iok: False
          let ?p3 = "p\<lparr>p_world := w3\<rparr>"
          from False c True sel data fo d dok i iok
          have six: "steps_page upsert 6 (copyBudgets rt copyFromMonth month p)
            = call_loadBudgets rt month [CopyEnd] ?p3"
            by (simp add: copyBudgets_def in_world_def eval_nat_numeral
              setLoading_def setStatus_def unwind_def failed_reply_def ok_reply_def budget_rows_def)
          obtain k where k: "steps_page upsert k (call_loadBudgets rt month [CopyEnd] ?p3)
              = unwind [CopyEnd] (?p3\<lparr>p_world := loadBudgets rt month (p_world ?p3)\<rparr>)"
            using call_loadBudgets_alone by blast
          have "steps_page upsert (6 + k) (copyBudgets rt copyFromMonth month p)
              = unwind [CopyEnd] (?p3\<lparr>p_world := loadBudgets rt month (p_world ?p3)\<rparr>)"
            by (simp only: steps_page_add six k)
          moreover from False c True sel data d dok i iok
          have "snd (copyBudgetsFromMonth rt copyFromMonth month (p_world p))
              = (loadBudgets rt month w3)\<lparr>w_status := BudgetsCopied, w_loading := False\<rparr>"
            by (simp add: copyBudgetsFromMonth_def)
          ultimately have "steps_page upsert (6 + k) (copyBudgets rt copyFromMonth month p)
            = (Ended, p\<lparr>p_world := snd (copyBudgetsFromMonth rt copyFromMonth month (p_world p))\<rparr>)"
            by (simp add: unwind_def setLoading_def setStatus_def)
          then show ?thesis ..
        qed
      qed
    qed
  qed
qed





section \<open>The previous month\<close>

text \<open>
  At UTC and five hours behind it, \<open>getPreviousMonthFrom\<close> gives the month before
  January 2024.
\<close>

lemma getPreviousMonthFrom_at_utc:
  "getPreviousMonthFrom \<lparr>tz_offset_minutes = 0, now_ms = 1709251200000\<rparr> (js ''2024-01'')
     = js ''2023-12''"
  by code_simp

lemma getPreviousMonthFrom_west_of_utc:
  "getPreviousMonthFrom \<lparr>tz_offset_minutes = -300, now_ms = 1709251200000\<rparr> (js ''2024-01'')
     = js ''2023-12''"
  by code_simp

text \<open>
  Claim C5 says that the previous month of \<open>2024-01\<close> is \<open>2023-12\<close>. Where local time
  is ahead of UTC, as in Tokyo (UTC+9), \<open>new Date(2024, -1, 1)\<close> is local midnight of
  1 December 2023, which is 30 November 15:00 in UTC, and \<open>toISOString\<close> prints UTC:
  the function returns \<open>2023-11\<close>.
\<close>

theorem getPreviousMonthFrom_east_of_utc:
  "getPreviousMonthFrom tokyo_runtime (js ''2024-01'') = js ''2023-11''"
  by code_simp

text \<open>
  Claim C4 says that the first load of a month with no stored budgets, whose previous month
  has some, shows one rollover prompt and sets the flag to \<open>'prompted'\<close>. In Tokyo the
  first load of March 2024, with a budget stored for February and every request
  succeeding, fetches the budgets of \<open>2024-01\<close>, finds none, sets the flag to
  \<open>'skipped'\<close> and shows no prompt, now or later.
\<close>

theorem rollover_not_offered_east_of_utc:
  "getPreviousMonthFrom tokyo_runtime march = js ''2024-01''
   \<and> w_trace (loadBudgets tokyo_runtime march (fresh_world february_rows [] [True]))
       = [SetItem (storageKey march) (js ''skipped'')]
   \<and> rollover_prompts march
        (run [Load tokyo_runtime march]
           (loadBudgets tokyo_runtime march (fresh_world february_rows [] [True]))) = []"
  by code_simp

section \<open>Properties of the CSV codec\<close>


lemma split_lines_no_lf:
  "0x0A \<notin> set l \<Longrightarrow> split_lines cur l = [cur @ l]"
proof (induction l arbitrary: cur)
  case Nil
  then show ?case by simp
next
  case (Cons c l)
  then have "c \<noteq> 0x0A" "0x0A \<notin> set l" by auto
  moreover have "\<not> (case l of [] \<Rightarrow> False | d # _ \<Rightarrow> d = 0x0A)"
    using \<open>0x0A \<notin> set l\<close> by (cases l) auto
  ultimately show ?case using Cons.IH [of "cur @ [c]"] by simp
qed

lemma split_lines_line:
  assumes "0x0A \<notin> set l" and "l \<noteq> [] \<Longrightarrow> last l \<noteq> 0x0D"
  shows "split_lines cur (l @ 0x0A # rest) = (cur @ l) # split_lines [] rest"
  using assms
proof (induction l arbitrary: cur)
  case Nil
  then show ?case by simp
next
  case (Cons c l)
  from Cons.prems have c: "c \<noteq> 0x0A" and l: "0x0A \<notin> set l" by auto
  have nocr: "\<not> (c = 0x0D \<and> (case l @ 0x0A # rest of [] \<Rightarrow> False | d # _ \<Rightarrow> d = 0x0A))"
  proof (cases l)
    case Nil
    with Cons.prems(2) show ?thesis by simp
  next
    case (Cons d l')
    with l show ?thesis by auto
  qed
  have last: "l \<noteq> [] \<Longrightarrow> last l \<noteq> 0x0D" using Cons.prems(2) by auto
  have "split_lines cur ((c # l) @ 0x0A # rest) = split_lines (cur @ [c]) (l @ 0x0A # rest)"
    using c nocr by auto
  also have "\<dots> = ((cur @ [c]) @ l) # split_lines [] rest"
    using l last by (rule Cons.IH)
  finally show ?case by simp
qed

lemma split_lines_join:
  "ls \<noteq> [] \<Longrightarrow> list_all plain_line ls \<Longrightarrow> split_lines [] (join_with [0x0A] ls) = ls"
proof (induction ls)
  case Nil
  then show ?case by simp
next
  case (Cons x ls)
  from Cons.prems have x: "0x0A \<notin> set x" "x \<noteq> [] \<Longrightarrow> last x \<noteq> 0x0D"
    by (simp_all add: plain_line_def)
  show ?case
  proof (cases ls)
    case Nil
    with x show ?thesis by (simp add: split_lines_no_lf)
  next
    case (Cons y ys)
    have "split_lines [] (x @ 0x0A # join_with [0x0A] (y # ys))
        = ([] @ x) # split_lines [] (join_with [0x0A] (y # ys))"
      using x by (rule split_lines_line)
    with Cons Cons.IH Cons.prems show ?thesis by simp
  qed
qed


lemma quote_cell_eq: "quote_cell cell = 0x22 # escape_quotes cell @ [0x22]"
  by (simp add: quote_cell_def escape_quotes_def)

lemma parse_line_quoted:
  "not_quote_next rest \<Longrightarrow>
   parse_line True cur res (escape_quotes f @ 0x22 # rest) = parse_line False (cur @ f) res rest"
proof (induction f arbitrary: cur)
  case Nil
  then show ?case
    by (cases rest) (simp_all add: escape_quotes_def not_quote_next_def)
next
  case (Cons c f)
  show ?case
  proof (cases "c = 0x22")
    case True
    have "parse_line True cur res (escape_quotes (c # f) @ 0x22 # rest)
        = parse_line True (cur @ [0x22]) res (escape_quotes f @ 0x22 # rest)"
      using True by (simp add: escape_quotes_def)
    also have "\<dots> = parse_line False ((cur @ [0x22]) @ f) res rest"
      using Cons.prems by (rule Cons.IH)
    finally show ?thesis using True by simp
  next
    case False
    have "parse_line True cur res (escape_quotes (c # f) @ 0x22 # rest)
        = parse_line True (cur @ [c]) res (escape_quotes f @ 0x22 # rest)"
      using False by (simp add: escape_quotes_def)
    also have "\<dots> = parse_line False ((cur @ [c]) @ f) res rest"
      using Cons.prems by (rule Cons.IH)
    finally show ?thesis by simp
  qed
qed

lemma parse_line_cell:
  "not_quote_next rest \<Longrightarrow>
   parse_line False [] res (quote_cell f @ rest) = parse_line False f res rest"
  using parse_line_quoted [of rest "[]" res f] by (simp add: quote_cell_eq)

lemma parse_line_row:
  "cells \<noteq> [] \<Longrightarrow>
   parse_line False [] res (join_with [0x2C] (map quote_cell cells)) = res @ cells"
proof (induction cells arbitrary: res)
  case Nil
  then show ?case by simp
next
  case (Cons x cells)
  show ?case
  proof (cases cells)
    case Nil
    have "parse_line False [] res (quote_cell x @ []) = parse_line False x res []"
      by (rule parse_line_cell) (simp add: not_quote_next_def)
    with Nil show ?thesis by simp
  next
    case (Cons y ys)
    let ?rest = "join_with [0x2C] (map quote_cell (y # ys))"
    have "parse_line False [] res (quote_cell x @ 0x2C # ?rest)
        = parse_line False x res (0x2C # ?rest)"
      by (rule parse_line_cell) (simp add: not_quote_next_def)
    also have "\<dots> = parse_line False [] (res @ [x]) ?rest" by simp
    also have "\<dots> = (res @ [x]) @ (y # ys)"
      using Cons.IH [of "res @ [x]"] Cons by simp
    finally show ?thesis using Cons by simp
  qed
qed


lemma trim_nonblank: "c \<in> set s \<Longrightarrow> \<not> is_js_whitespace c \<Longrightarrow> trim s \<noteq> []"
proof -
  assume c: "c \<in> set s" and n: "\<not> is_js_whitespace c"
  then have "c \<in> set (dropWhile is_js_whitespace s)"
    by (metis (no_types, lifting) dropWhile_append3 in_set_conv_decomp list.set_intros(1)
        set_dropWhileD dropWhile_eq_Nil_conv takeWhile_dropWhile_id set_append UnE set_takeWhileD)
  then have "c \<in> set (rev (dropWhile is_js_whitespace s))" by simp
  then have "dropWhile is_js_whitespace (rev (dropWhile is_js_whitespace s)) \<noteq> []"
    using n by (auto simp: dropWhile_eq_Nil_conv)
  then show ?thesis by (simp add: trim_def)
qed


lemma set_quote_cell: "set (quote_cell f) = insert 0x22 (set f)"
  by (induction f) (auto simp: quote_cell_def)

lemma quote_cell_nonempty: "quote_cell f \<noteq> []"
  by (simp add: quote_cell_def)

lemma last_quote_cell: "last (quote_cell f) = 0x22"
  by (simp add: quote_cell_def)

lemma set_join_cells:
  "set (join_with [0x2C] (map quote_cell cells)) \<subseteq> {0x22, 0x2C} \<union> \<Union> (set ` set cells)"
proof (induction cells)
  case Nil
  then show ?case by simp
next
  case (Cons x cells)
  then show ?case by (cases cells) (auto simp: set_quote_cell)
qed

lemma last_join_cells:
  "cells \<noteq> [] \<Longrightarrow> last (join_with [0x2C] (map quote_cell cells)) = 0x22"
proof (induction cells)
  case Nil
  then show ?case by simp
next
  case (Cons x cells)
  show ?case
  proof (cases cells)
    case Nil
    then show ?thesis by (simp add: last_quote_cell)
  next
    case (Cons y ys)
    have "join_with [0x2C] (map quote_cell (y # ys)) \<noteq> []"
      by (cases ys) (simp_all add: quote_cell_nonempty)
    with Cons Cons.IH show ?thesis by simp
  qed
qed

lemma hd_join_cells:
  "cells \<noteq> [] \<Longrightarrow> hd (join_with [0x2C] (map quote_cell cells)) = 0x22
     \<and> join_with [0x2C] (map quote_cell cells) \<noteq> []"
  by (cases cells; cases "tl cells") (auto simp: quote_cell_def)

lemma csv_text_lines: "csv_text rows = join_with [0x0A] (map csv_line rows)"
  by (simp add: csv_text_def)

lemma csv_line_plain:
  assumes "row \<noteq> []" and "list_all csv_safe row"
  shows "plain_line (csv_line row)"
proof -
  have "0x0A \<notin> set (csv_line row)"
  proof
    assume "0x0A \<in> set (csv_line row)"
    with set_join_cells [of row] have "(0x0A::jschar) \<in> {0x22, 0x2C} \<union> \<Union> (set ` set row)"
      unfolding csv_line_def by blast
    then obtain c where "c \<in> set row" "0x0A \<in> set c" by auto
    with assms(2) show False by (auto simp: list_all_iff csv_safe_def)
  qed
  moreover have "csv_line row \<noteq> []" "last (csv_line row) = 0x22"
    using assms(1) hd_join_cells [of row] last_join_cells [of row] by (simp_all add: csv_line_def)
  ultimately show ?thesis by (simp add: plain_line_def)
qed

lemma quote_not_whitespace: "\<not> is_js_whitespace 0x22"
  by (simp add: is_js_whitespace_def)

lemma csv_line_nonblank:
  assumes "row \<noteq> []"
  shows "trim (csv_line row) \<noteq> []"
proof -
  have "csv_line row \<noteq> []" "hd (csv_line row) = 0x22"
    using assms hd_join_cells [of row] by (simp_all add: csv_line_def)
  then have "0x22 \<in> set (csv_line row)" by (metis hd_in_set)
  then show ?thesis using quote_not_whitespace by (rule trim_nonblank)
qed

lemma parse_csv_line:
  assumes "row \<noteq> []" and "list_all csv_safe row"
  shows "map trim (parse_line False [] [] (csv_line row)) = row"
proof -
  have "parse_line False [] [] (csv_line row) = row"
    using parse_line_row [OF assms(1), of "[]"] by (simp add: csv_line_def)
  moreover have "map trim row = row"
    using assms(2) by (induction row) (simp_all add: csv_safe_def)
  ultimately show ?thesis by simp
qed

lemma parseCsv_csv_text:
  assumes "list_all (\<lambda>row. row \<noteq> [] \<and> list_all csv_safe row) rows"
  shows "parseCsv (csv_text rows) = rows"
proof (cases "rows = []")
  case True
  then show ?thesis by (simp add: parseCsv_def csv_text_def trim_def)
next
  case False
  have plain: "list_all plain_line (map csv_line rows)"
    using assms by (induction rows) (simp_all add: csv_line_plain)
  have lines: "split_lines [] (csv_text rows) = map csv_line rows"
    unfolding csv_text_lines using False plain by (intro split_lines_join) simp_all
  have keep: "filter (\<lambda>line. length (trim line) > 0) (map csv_line rows) = map csv_line rows"
    using assms by (induction rows) (simp_all add: csv_line_nonblank)
  have "map (\<lambda>line. map trim (parse_line False [] [] line)) (map csv_line rows) = rows"
    using assms by (induction rows) (simp_all add: parse_csv_line)
  with lines keep show ?thesis by (simp add: parseCsv_def)
qed


lemma dec_digits_nonempty: "dec_digits n \<noteq> []"
  by (subst dec_digits.simps) simp

lemma digit_char:
  "d < 10 \<Longrightarrow> is_digit (48 + of_nat d) \<and> unat (48 + of_nat d :: jschar) = 48 + d"
proof -
  assume d: "d < 10"
  have "unat (of_nat (48 + d) :: jschar) = (48 + d) mod 2 ^ LENGTH(16)"
    by (rule unat_of_nat)
  with d have u: "unat (48 + of_nat d :: jschar) = 48 + d" by simp
  have "unat (0x30::jschar) \<le> unat (48 + of_nat d :: jschar)"
    and "unat (48 + of_nat d :: jschar) \<le> unat (0x39::jschar)"
    using d by (simp_all only: u) simp_all
  then have "(0x30::jschar) \<le> 48 + of_nat d \<and> (48 + of_nat d :: jschar) \<le> 0x39"
    by (simp only: word_le_nat_alt)
  with u show ?thesis by (simp add: is_digit_def)
qed

lemma dec_digits_digits: "list_all is_digit (dec_digits n)"
proof (induction n rule: dec_digits.induct)
  case (1 n)
  show ?case
  proof (cases "n < 10")
    case True
    then show ?thesis by (subst dec_digits.simps) (simp add: digit_char)
  next
    case False
    have "n mod 10 < 10" by simp
    then have "is_digit (48 + of_nat (n mod 10))" using digit_char by blast
    with False 1 show ?thesis by (subst dec_digits.simps) simp
  qed
qed

lemma digits_value_snoc: "digits_value (s @ [c]) = 10 * digits_value s + (unat c - 48)"
  by (simp add: digits_value_def)

lemma digits_value_dec_digits: "digits_value (dec_digits n) = n"
proof (induction n rule: dec_digits.induct)
  case (1 n)
  show ?case
  proof (cases "n < 10")
    case True
    then show ?thesis
      by (subst dec_digits.simps) (simp add: digits_value_def digit_char)
  next
    case False
    have m: "unat (48 + of_nat (n mod 10) :: jschar) = 48 + n mod 10"
      using digit_char [of "n mod 10"] by simp
    have "digits_value (dec_digits n) = 10 * digits_value (dec_digits (n div 10)) + n mod 10"
      using False by (subst dec_digits.simps) (simp add: digits_value_snoc m)
    with False 1 show ?thesis by simp
  qed
qed

lemma Number_dec_dec_digits: "Number_dec (dec_digits n) = Some (int n)"
  by (simp add: Number_dec_def dec_digits_nonempty dec_digits_digits digits_value_dec_digits)

lemma digit_not_whitespace: "is_digit c \<Longrightarrow> \<not> is_js_whitespace c"
  by (auto simp: is_digit_def is_js_whitespace_def word_le_nat_alt)

lemma dropWhile_hd: "xs \<noteq> [] \<Longrightarrow> \<not> P (hd xs) \<Longrightarrow> dropWhile P xs = xs"
  by (cases xs) simp_all

lemma trim_id:
  assumes "s \<noteq> []" and "\<not> is_js_whitespace (hd s)" and "\<not> is_js_whitespace (last s)"
  shows "trim s = s"
proof -
  have a: "dropWhile is_js_whitespace s = s"
    using assms(1,2) by (rule dropWhile_hd)
  have "rev s \<noteq> []" "\<not> is_js_whitespace (hd (rev s))"
    using assms(1,3) by (simp_all add: hd_rev)
  then have "dropWhile is_js_whitespace (rev s) = rev s" by (rule dropWhile_hd)
  with a show ?thesis by (simp add: trim_def)
qed

lemma trim_dec_digits: "trim (dec_digits n) = dec_digits n"
proof (rule trim_id)
  show ne: "dec_digits n \<noteq> []" by (rule dec_digits_nonempty)
  have all: "\<forall>c\<in>set (dec_digits n). is_digit c"
    using dec_digits_digits [of n] by (simp add: list_all_iff)
  from ne all show "\<not> is_js_whitespace (hd (dec_digits n))"
    by (metis digit_not_whitespace hd_in_set)
  from ne all show "\<not> is_js_whitespace (last (dec_digits n))"
    by (metis digit_not_whitespace last_in_set)
qed

lemma dec_digits_no_lf: "0x0A \<notin> set (dec_digits n)"
proof
  assume "0x0A \<in> set (dec_digits n)"
  then have "is_digit 0x0A" using dec_digits_digits [of n] by (auto simp: list_all_iff)
  then show False by (simp add: is_digit_def)
qed

lemma csv_safe_dec_digits: "csv_safe (dec_digits n)"
  by (simp add: csv_safe_def trim_dec_digits dec_digits_no_lf)


lemma csv_safe_labels:
  "csv_safe label_income" "csv_safe label_expense"
  "csv_safe [0x6D88, 0x8CBB]" "csv_safe [0x6D6A, 0x8CBB]" "csv_safe [0x6295, 0x8CC7]"
  by (simp_all add: csv_safe_def trim_def is_js_whitespace_def label_income_def label_expense_def)

lemma csv_safe_header: "list_all csv_safe transactions_header"
  by (simp add: transactions_header_def csv_safe_def trim_def is_js_whitespace_def)

lemma purpose_label_safe:
  "csv_safe (case map_of purposes p of Some label \<Rightarrow> label | None \<Rightarrow> [0x6D88, 0x8CBB])"
  by (simp add: purposes_def csv_safe_labels)

lemma String_int_nonneg: "0 \<le> n \<Longrightarrow> String_int n = dec_digits (nat n)"
  by (simp add: String_int_def)

lemma transaction_line_safe:
  assumes "exportable t"
  shows "transaction_line t \<noteq> [] \<and> list_all csv_safe (transaction_line t)"
  using assms
  by (simp add: exportable_def transaction_line_def csv_safe_labels purpose_label_safe
      String_int_nonneg csv_safe_dec_digits)

lemma parse_download:
  assumes "list_all exportable items"
  shows "parseCsv (downloadCsv items) = transactions_header # map transaction_line items"
proof -
  have "list_all (\<lambda>row. row \<noteq> [] \<and> list_all csv_safe row) (map transaction_line items)"
    using assms by (induction items) (simp_all add: transaction_line_safe)
  moreover have "transactions_header \<noteq> []" by (simp add: transactions_header_def)
  ultimately have "list_all (\<lambda>row. row \<noteq> [] \<and> list_all csv_safe row)
      (transactions_header # map transaction_line items)"
    using csv_safe_header by simp
  then show ?thesis unfolding downloadCsv_def by (rule parseCsv_csv_text)
qed

lemma purposeFromLabel_of_label:
  assumes "p \<in> fst ` set purposes"
  shows "purposeFromLabel (Some (case map_of purposes p of Some label \<Rightarrow> label
                                  | None \<Rightarrow> [0x6D88, 0x8CBB])) = p"
proof -
  from assms have "p = js ''consumption'' \<or> p = js ''waste'' \<or> p = js ''investment''"
    by (auto simp: purposes_def)
  then show ?thesis
    by (elim disjE) (simp_all add: purposeFromLabel_def purposes_def js_def)
qed

lemma labels_differ: "label_expense \<noteq> label_income"
  by (simp add: label_income_def label_expense_def)

lemma income_not_expense: "js ''income'' \<noteq> js ''expense''"
  by (simp add: js_def)

lemma import_row_line:
  assumes "exportable t"
  shows "import_row (transaction_line t) = Some (reimported t)"
proof -
  from assms have date: "t_date t \<noteq> []" and cat: "t_category t \<noteq> []"
    and amount: "0 \<le> t_amount t"
    and ty: "t_type t = js ''income'' \<or> t_type t = js ''expense''"
    and purpose: "t_type t = js ''expense'' \<Longrightarrow> t_purpose t \<in> fst ` set purposes"
    by (simp_all add: exportable_def)
  have num: "Number_dec (String_int (t_amount t)) = Some (t_amount t)"
    using amount by (simp add: String_int_nonneg Number_dec_dec_digits)
  show ?thesis
  proof (cases "t_type t = js ''income''")
    case True
    then show ?thesis
      using date cat amount num
      by (simp add: import_row_def transaction_line_def cell_at_def or_else_def reimported_def
          Let_def)
  next
    case False
    with ty have e: "t_type t = js ''expense''" by simp
    have p: "purposeFromLabel (Some (case map_of purposes (t_purpose t) of Some label \<Rightarrow> label
                                  | None \<Rightarrow> [0x6D88, 0x8CBB])) = t_purpose t"
      using purpose [OF e] by (rule purposeFromLabel_of_label)
    show ?thesis
      using date cat amount num e p
      by (simp add: import_row_def transaction_line_def cell_at_def or_else_def reimported_def
          Let_def labels_differ income_not_expense [symmetric])
  qed
qed

lemma tuple_of_reimported: "tuple_of (reimported t) = tuple_of t"
  by (simp add: tuple_of_def reimported_def note_text_def income_not_expense
      income_not_expense [symmetric])

lemma line_has_content: "exportable t \<Longrightarrow> list_ex (\<lambda>cell. cell \<noteq> []) (transaction_line t)"
  by (simp add: exportable_def transaction_line_def)

text \<open>
  Claim C2. For transactions whose fields go through the CSV codec unchanged: the text
  that \<open>downloadCsv\<close> produces, read by \<open>parseCsv\<close> and mapped row by row as the
  transaction import does, gives for every row the tuple (date, type, purpose of an
  expense, category, note, amount) of the transaction it came from, in order. The import
  as a whole refuses the file of an empty list (it has only the header) and otherwise
  inserts one row per transaction, with those tuples.
\<close>

theorem csv_round_trip:
  assumes "list_all exportable items"
  shows "map (\<lambda>row. map_option tuple_of (import_row row)) (tl (parseCsv (downloadCsv items)))
           = map (\<lambda>t. Some (tuple_of t)) items
     \<and> import_transactions (downloadCsv items)
           = (if items = [] then NoCsvData else InsertPayload (map reimported items))
     \<and> map tuple_of (map reimported items) = map tuple_of items"
proof -
  note parsed = parse_download [OF assms]
  have rows: "map import_row (map transaction_line items) = map (\<lambda>t. Some (reimported t)) items"
    using assms by (induction items) (simp_all add: import_row_line)
  have "map (\<lambda>row. map_option tuple_of (import_row row)) (map transaction_line items)
           = map (\<lambda>t. Some (tuple_of t)) items"
    using assms by (induction items) (simp_all add: import_row_line tuple_of_reimported)
  then have first:
    "map (\<lambda>row. map_option tuple_of (import_row row)) (tl (parseCsv (downloadCsv items)))
           = map (\<lambda>t. Some (tuple_of t)) items"
    by (simp add: parsed)
  have third: "map tuple_of (map reimported items) = map tuple_of items"
    by (simp add: tuple_of_reimported)
  have body: "filter (\<lambda>row. list_ex (\<lambda>cell. length cell > 0) row) (map transaction_line items)
      = map transaction_line items"
    using assms by (induction items) (simp_all add: line_has_content)
  have payload: "List.map_filter import_row (map transaction_line items) = map reimported items"
    using assms by (induction items) (simp_all add: List.map_filter_simps import_row_line)
  have header: "cell_at transactions_header 0 = Some (hd transactions_header)"
    by (simp add: cell_at_def transactions_header_def)
  have second: "import_transactions (downloadCsv items)
           = (if items = [] then NoCsvData else InsertPayload (map reimported items))"
  proof (cases "items = []")
    case True
    with parsed show ?thesis by (simp add: import_transactions_def)
  next
    case False
    then have "\<not> length (transactions_header # map transaction_line items) \<le> 1"
      by (cases items) simp_all
    with False parsed body payload header show ?thesis
      by (simp add: import_transactions_def Let_def)
  qed
  from first second third show ?thesis by blast
qed

lemma ex_items_exportable: "list_all exportable ex_items"
  by (simp add: ex_items_def exportable_def csv_safe_def trim_def is_js_whitespace_def js_def
      note_text_def purposes_def)

text \<open>
  The theorem on an expense whose note has quotes and a comma, and an income with no note.
\<close>

theorem csv_round_trip_witness:
  "import_transactions (downloadCsv ex_items) = InsertPayload (map reimported ex_items)
   \<and> map tuple_of (map reimported ex_items)
       = [(js ''2024-01-05'', js ''expense'', Some (js ''waste''), [0x98DF, 0x8CBB],
           js ''a \"b\", c'', 1200),
          (js ''2024-01-10'', js ''income'', None, [0x52B4, 0x50CD], [], 50000)]"
proof -
  have ne: "ex_items \<noteq> []" by (simp add: ex_items_def)
  have t: "map tuple_of ex_items
       = [(js ''2024-01-05'', js ''expense'', Some (js ''waste''), [0x98DF, 0x8CBB],
           js ''a \"b\", c'', 1200),
          (js ''2024-01-10'', js ''income'', None, [0x52B4, 0x50CD], [], 50000)]"
    by (simp add: ex_items_def tuple_of_def note_text_def js_def)
  from csv_round_trip [OF ex_items_exportable] ne t show ?thesis by simp
qed

lemma split_lines_without_lf:
  "0x0A \<notin> set cur \<Longrightarrow> l \<in> set (split_lines cur rest) \<Longrightarrow> 0x0A \<notin> set l"
proof (induction cur rest rule: split_lines.induct)
  case (1 cur)
  then show ?case by simp
next
  case (2 cur c cs)
  then show ?case by (auto split: if_splits)
qed

lemma parse_line_cells:
  "cell \<in> set (parse_line q cur res line) \<Longrightarrow>
     cell \<in> set res \<or> set cell \<subseteq> set cur \<union> set line"
proof (induction q cur res line rule: parse_line.induct)
  case (1 inQuotes current result)
  then show ?case by auto
next
  case (2 inQuotes current result char rest)
  show ?case
  proof (cases "char = 0x22 \<and> inQuotes \<and> (case rest of [] \<Rightarrow> False | next # _ \<Rightarrow> next = 0x22)")
    case True
    with 2 have "cell \<in> set result \<or> set cell \<subseteq> set (current @ [0x22]) \<union> set (tl rest)"
      by simp
    moreover have "set (tl rest) \<subseteq> set rest" by (cases rest) auto
    ultimately show ?thesis using True by auto
  next
    case False
    note a = False
    show ?thesis
    proof (cases "char = 0x22")
      case True
      with a 2 have "cell \<in> set result \<or> set cell \<subseteq> set current \<union> set rest" by auto
      then show ?thesis by auto
    next
      case False
      note b = False
      show ?thesis
      proof (cases "char = 0x2C \<and> \<not> inQuotes")
        case True
        with a b 2 have "cell \<in> set (result @ [current]) \<or> set cell \<subseteq> set [] \<union> set rest"
          by simp
        then show ?thesis by auto
      next
        case False
        with a b 2 have "cell \<in> set result \<or> set cell \<subseteq> set (current @ [char]) \<union> set rest"
          by simp
        then show ?thesis by auto
      qed
    qed
  qed
qed

lemma set_trim: "set (trim s) \<subseteq> set s"
proof -
  have "set (trim s) \<subseteq> set (rev (dropWhile is_js_whitespace s))"
    unfolding trim_def set_rev by (auto dest: set_dropWhileD)
  then show ?thesis by (auto dest: set_dropWhileD)
qed

lemma parseCsv_cells_without_lf:
  assumes "row \<in> set (parseCsv input)" and "cell \<in> set row"
  shows "0x0A \<notin> set cell"
proof -
  from assms(1) have "row \<in> (\<lambda>line. map trim (parse_line False [] [] line))
      ` set (filter (\<lambda>line. length (trim line) > 0) (split_lines [] input))"
    unfolding parseCsv_def set_map .
  then obtain line where line: "line \<in> set (split_lines [] input)"
    and row: "row = map trim (parse_line False [] [] line)"
    by auto
  have "0x0A \<notin> set ([] :: jsstring)" by simp
  then have nolf: "0x0A \<notin> set line" using line by (rule split_lines_without_lf)
  from assms(2) have "cell \<in> trim ` set (parse_line False [] [] line)"
    unfolding row set_map .
  then obtain c where c: "c \<in> set (parse_line False [] [] line)" and cell: "cell = trim c"
    by auto
  from parse_line_cells [OF c] have "set c \<subseteq> set line" by simp
  moreover have "set cell \<subseteq> set c" unfolding cell by (rule set_trim)
  ultimately show ?thesis using nolf by blast
qed

lemma parseCsv_one_cell:
  assumes "0x0A \<notin> set s"
  shows "parseCsv (csv_text [[s]]) = [[trim s]]"
proof -
  have whole: "csv_text [[s]] = quote_cell s" by (simp add: csv_text_def csv_line_def)
  have "0x0A \<notin> set (quote_cell s)" using assms by (simp add: set_quote_cell)
  then have lines: "split_lines [] (quote_cell s) = [quote_cell s]"
    by (simp add: split_lines_no_lf)
  have "0x22 \<in> set (quote_cell s)" by (simp add: set_quote_cell)
  then have keep: "trim (quote_cell s) \<noteq> []" using quote_not_whitespace by (rule trim_nonblank)
  have "parse_line False [] [] (quote_cell s @ []) = parse_line False s [] []"
    by (rule parse_line_cell) (simp add: not_quote_next_def)
  then have cells: "parse_line False [] [] (quote_cell s) = [s]" by simp
  show ?thesis unfolding parseCsv_def whole lines using keep by (simp add: cells)
qed

text \<open>
  Extra X3. The fields that go through the codec unchanged, as claim C2 supposes of the
  texts of a transaction, are exactly those with no line feed and nothing for \<open>trim()\<close>
  to remove: a text alone in a file comes back as it is if and only if it is such a field.
\<close>

theorem csv_safe_iff_round_trip: "csv_safe s \<longleftrightarrow> parseCsv (csv_text [[s]]) = [[s]]"
proof
  assume "csv_safe s"
  then show "parseCsv (csv_text [[s]]) = [[s]]"
    using parseCsv_one_cell [of s] by (simp add: csv_safe_def)
next
  assume rt: "parseCsv (csv_text [[s]]) = [[s]]"
  have nolf: "0x0A \<notin> set s"
    using parseCsv_cells_without_lf [of "[s]" "csv_text [[s]]" s] rt by simp
  with parseCsv_one_cell [OF nolf] rt show "csv_safe s" by (simp add: csv_safe_def)
qed

text \<open>The theorem on a text with quotes and a comma, beside one with a leading space.\<close>

theorem csv_safe_iff_round_trip_witness:
  "csv_safe (js ''a \"b\", c'') \<and> parseCsv (csv_text [[js ''a \"b\", c'']]) = [[js ''a \"b\", c'']]
   \<and> \<not> csv_safe (js '' a'') \<and> parseCsv (csv_text [[js '' a'']]) = [[js ''a'']]"
proof -
  have a: "csv_safe (js ''a \"b\", c'')"
    by (simp add: csv_safe_def trim_def is_js_whitespace_def js_def)
  have b: "\<not> csv_safe (js '' a'')"
    by (simp add: csv_safe_def trim_def is_js_whitespace_def js_def)
  have c: "parseCsv (csv_text [[js '' a'']]) = [[js ''a'']]" by code_simp
  from a b c csv_safe_iff_round_trip [of "js ''a \"b\", c''"] show ?thesis by simp
qed

section \<open>Properties of the budget statistics\<close>

lemma bitlen_pos: "0 < p \<Longrightarrow> 1 \<le> bitlen p"
  using bitlen_eq_zero_iff [of p] bitlen_nonneg [of p] by linarith

lemma bitlen_bounds_rat:
  assumes "0 < p"
  shows "(2::rat) powi (bitlen p - 1) \<le> of_int p" and "(of_int p :: rat) < 2 powi bitlen p"
proof -
  from assms have b: "1 \<le> bitlen p" by (rule bitlen_pos)
  from bitlen_bounds [OF assms]
  have lo: "2 ^ nat (bitlen p - 1) \<le> p" and hi: "p < 2 ^ nat (bitlen p)" by simp_all
  have "(2::rat) powi (bitlen p - 1) = 2 ^ nat (bitlen p - 1)"
    using b by (simp add: power_int_def)
  also have "\<dots> = of_int (2 ^ nat (bitlen p - 1))" by simp
  also have "\<dots> \<le> of_int p" using lo by (simp only: of_int_le_iff)
  finally show "(2::rat) powi (bitlen p - 1) \<le> of_int p" .
  have "(of_int p :: rat) < of_int (2 ^ nat (bitlen p))" using hi by (simp only: of_int_less_iff)
  also have "\<dots> = 2 ^ nat (bitlen p)" by simp
  also have "\<dots> = 2 powi bitlen p" using b by (simp add: power_int_def)
  finally show "(of_int p :: rat) < 2 powi bitlen p" .
qed

lemma floor_log2_bounds:
  assumes "0 < x"
  shows "2 powi floor_log2 x \<le> x" and "x < 2 powi (floor_log2 x + 1)"
proof -
  obtain p q where pq: "quotient_of x = (p, q)" by (cases "quotient_of x")
  then have q: "0 < q" by (rule quotient_of_denom_pos)
  from pq have x: "x = of_int p / of_int q" by (rule quotient_of_div)
  with assms q have p: "0 < p" by (simp add: zero_less_divide_iff)
  let ?d = "bitlen p - bitlen q"
  note bp = bitlen_bounds_rat [OF p] and bq = bitlen_bounds_rat [OF q]
  have qpos: "(0::rat) < of_int q" using q by simp
  have ppos: "(0::rat) < of_int p" using p by simp
  have "x < 2 powi bitlen p / 2 powi (bitlen q - 1)"
    unfolding x using ppos bp(2) bq(1) by (intro frac_less) simp_all
  also have "\<dots> = 2 powi (?d + 1)"
    by (simp add: power_int_diff [symmetric] algebra_simps)
  finally have up: "x < 2 powi (?d + 1)" .
  have "(2::rat) powi (?d - 1) = 2 powi (bitlen p - 1) / 2 powi bitlen q"
    by (simp add: power_int_diff [symmetric] algebra_simps)
  also have "\<dots> < x"
    unfolding x using bp(1) bq(2) qpos by (intro frac_less2) simp_all
  finally have lo: "2 powi (?d - 1) < x" .
  have fle: "floor_log2 x = (if 2 powi ?d \<le> x then ?d else ?d - 1)"
    by (simp add: floor_log2_def pq)
  show "2 powi floor_log2 x \<le> x" using lo by (simp add: fle)
  show "x < 2 powi (floor_log2 x + 1)" using up by (auto simp: fle)
qed

lemma round_half_even_error: "\<bar>of_int (round_half_even m) - m\<bar> \<le> 1 / 2"
proof -
  define n where "n = \<lfloor>m\<rfloor>"
  define f where "f = m - of_int n"
  have f: "0 \<le> f" "f < 1" unfolding f_def n_def by linarith+
  have m: "m = of_int n + f" by (simp add: f_def)
  have r: "round_half_even m
      = (if f < 1 / 2 then n else if f > 1 / 2 then n + 1 else if even n then n else n + 1)"
    unfolding round_half_even_def Let_def f_def n_def by (rule refl)
  consider "f < 1 / 2" | "f > 1 / 2" | "f = 1 / 2" by linarith
  then show ?thesis
  proof cases
    case 1
    with f have "\<bar>of_int n - (of_int n + f)\<bar> \<le> 1 / 2" by simp
    with 1 show ?thesis by (simp add: r m [symmetric])
  next
    case 2
    with f have "\<bar>of_int (n + 1) - (of_int n + f)\<bar> \<le> 1 / 2" by simp
    with 2 show ?thesis by (simp add: r m [symmetric])
  next
    case 3
    then have "\<bar>of_int (n + 1) - (of_int n + f)\<bar> \<le> 1 / 2"
      and "\<bar>of_int n - (of_int n + f)\<bar> \<le> 1 / 2" by simp_all
    with 3 show ?thesis by (simp add: r m [symmetric])
  qed
qed

lemma nearest_double_error:
  assumes "x \<noteq> 0"
  shows "\<bar>nearest_double x - x\<bar> \<le> \<bar>x\<bar> * unit_roundoff"
proof -
  let ?a = "\<bar>x\<bar>"
  let ?e = "floor_log2 ?a"
  let ?u = "(2::rat) powi (?e - 52)"
  let ?n = "round_half_even (?a / ?u)"
  have a: "0 < ?a" using assms by simp
  have u: "0 < ?u" by simp
  have uval: "?u = 2 powi ?e / 2 ^ 52" by (simp add: power_int_diff)
  have "?u \<le> ?a / 2 ^ 52"
    unfolding uval using floor_log2_bounds(1) [OF a] by (simp add: divide_right_mono)
  then have half: "?u * (1 / 2) \<le> ?a * unit_roundoff" by (simp add: unit_roundoff_def)
  have flx: "nearest_double x = sgn x * (of_int ?n * ?u)" using assms by (simp add: nearest_double_def Let_def)
  have xs: "x = sgn x * ?a" by (simp add: sgn_if)
  have "nearest_double x - x = sgn x * (of_int ?n * ?u - ?a)"
    by (subst (2) xs) (simp add: flx algebra_simps)
  then have "\<bar>nearest_double x - x\<bar> = \<bar>of_int ?n * ?u - ?a\<bar>"
    using assms by (simp add: abs_mult abs_sgn_eq)
  also have "of_int ?n * ?u - ?a = ?u * (of_int ?n - ?a / ?u)"
    using u by (simp add: algebra_simps)
  also have "\<bar>\<dots>\<bar> = ?u * \<bar>of_int ?n - ?a / ?u\<bar>" using u by (simp add: abs_mult)
  also have "\<dots> \<le> ?u * (1 / 2)"
    using round_half_even_error [of "?a / ?u"] u by (intro mult_left_mono) simp_all
  also have "\<dots> \<le> ?a * unit_roundoff" by (rule half)
  finally show ?thesis .
qed

lemma nearest_double_bounds:
  assumes "0 \<le> x"
  shows "x * (1 - unit_roundoff) \<le> nearest_double x" and "nearest_double x \<le> x * (1 + unit_roundoff)"
proof -
  have "\<bar>nearest_double x - x\<bar> \<le> x * unit_roundoff"
  proof (cases "x = 0")
    case True
    then show ?thesis by (simp add: nearest_double_def)
  next
    case False
    with assms nearest_double_error [OF False] show ?thesis by simp
  qed
  then show "x * (1 - unit_roundoff) \<le> nearest_double x" and "nearest_double x \<le> x * (1 + unit_roundoff)"
    by (simp_all add: abs_le_iff algebra_simps)
qed

lemma unit_roundoff_range: "0 < unit_roundoff" "unit_roundoff < 1"
  by (simp_all add: unit_roundoff_def)

lemma nearest_double_nonneg: "0 \<le> x \<Longrightarrow> 0 \<le> nearest_double x"
proof -
  assume x: "0 \<le> x"
  have "0 \<le> x * (1 - unit_roundoff)" using x unit_roundoff_range by simp
  with nearest_double_bounds(1) [OF x] show ?thesis by linarith
qed

lemma percent_bracket:
  assumes e: "0 \<le> spent" and b: "0 < budget"
  shows "\<lfloor>of_int (100 * spent) / of_int budget * (1 - unit_roundoff)\<^sup>2 + 1 / 2\<rfloor>
           \<le> percent spent budget"
    and "percent spent budget
           \<le> \<lfloor>of_int (100 * spent) / of_int budget * (1 + unit_roundoff)\<^sup>2 + 1 / 2\<rfloor>"
proof -
  let ?q = "(of_int spent / of_int budget :: rat)"
  let ?r = "(of_int (100 * spent) / of_int budget :: rat)"
  have q: "0 \<le> ?q" using e b by simp
  have r: "?r = ?q * 100" by simp
  note b1 = nearest_double_bounds [OF q]
  have y1: "0 \<le> nearest_double ?q" using q by (rule nearest_double_nonneg)
  then have y100: "0 \<le> nearest_double ?q * 100" by simp
  note b2 = nearest_double_bounds [OF y100]
  have lo1: "0 \<le> 1 - unit_roundoff" and hi1: "0 \<le> 1 + unit_roundoff"
    using unit_roundoff_range by simp_all
  have "?r * (1 - unit_roundoff)\<^sup>2 = (?q * (1 - unit_roundoff)) * 100 * (1 - unit_roundoff)"
    by (simp add: r power2_eq_square algebra_simps)
  also have "\<dots> \<le> nearest_double ?q * 100 * (1 - unit_roundoff)"
    using b1(1) lo1 by (intro mult_right_mono) simp_all
  also have "\<dots> \<le> nearest_double (nearest_double ?q * 100)" by (rule b2(1))
  finally have lower: "?r * (1 - unit_roundoff)\<^sup>2 \<le> nearest_double (nearest_double ?q * 100)" .
  have "nearest_double (nearest_double ?q * 100) \<le> nearest_double ?q * 100 * (1 + unit_roundoff)" by (rule b2(2))
  also have "\<dots> \<le> (?q * (1 + unit_roundoff)) * 100 * (1 + unit_roundoff)"
    using b1(2) hi1 by (intro mult_right_mono) simp_all
  also have "\<dots> = ?r * (1 + unit_roundoff)\<^sup>2"
    by (simp add: r power2_eq_square algebra_simps)
  finally have upper: "nearest_double (nearest_double ?q * 100) \<le> ?r * (1 + unit_roundoff)\<^sup>2" .
  have p: "percent spent budget = \<lfloor>nearest_double (nearest_double ?q * 100) + 1 / 2\<rfloor>"
    using b by (simp add: percent_def Math_round_def)
  show "\<lfloor>?r * (1 - unit_roundoff)\<^sup>2 + 1 / 2\<rfloor> \<le> percent spent budget"
    unfolding p using lower by (intro floor_mono) simp
  show "percent spent budget \<le> \<lfloor>?r * (1 + unit_roundoff)\<^sup>2 + 1 / 2\<rfloor>"
    unfolding p using upper by (intro floor_mono) simp
qed

lemma exact_percent_bracket:
  assumes e: "0 \<le> spent" and b: "0 < budget"
  shows "\<lfloor>of_int (100 * spent) / of_int budget * (1 - unit_roundoff)\<^sup>2 + 1 / 2\<rfloor>
           \<le> exact_percent spent budget"
    and "exact_percent spent budget
           \<le> \<lfloor>of_int (100 * spent) / of_int budget * (1 + unit_roundoff)\<^sup>2 + 1 / 2\<rfloor>"
proof -
  let ?r = "(of_int (100 * spent) / of_int budget :: rat)"
  have r: "0 \<le> ?r" using e b by simp
  have lo: "(1 - unit_roundoff)\<^sup>2 \<le> 1"
    using unit_roundoff_range by (simp add: power_le_one_iff abs_le_square_iff [symmetric])
  have hi: "1 \<le> (1 + unit_roundoff)\<^sup>2"
    using unit_roundoff_range by (simp add: one_le_power)
  have "?r * (1 - unit_roundoff)\<^sup>2 \<le> ?r * 1" using lo r by (rule mult_left_mono)
  then show "\<lfloor>?r * (1 - unit_roundoff)\<^sup>2 + 1 / 2\<rfloor> \<le> exact_percent spent budget"
    unfolding exact_percent_def by (intro floor_mono) simp
  have "?r * 1 \<le> ?r * (1 + unit_roundoff)\<^sup>2" using hi r by (rule mult_left_mono)
  then show "exact_percent spent budget \<le> \<lfloor>?r * (1 + unit_roundoff)\<^sup>2 + 1 / 2\<rfloor>"
    unfolding exact_percent_def by (intro floor_mono) simp
qed

text \<open>
  Claim C3, as amended. When \<open>budgetTotal\<close> is not positive, so when it is 0 (and also
  when it is not a number), the percent is 0 whatever \<open>expenseTotal\<close> is. When
  \<open>budgetTotal\<close> is positive, and both totals are
  non-negative integers below \<open>2\<^sup>5\<^sup>3\<close>, the percent is \<open>Math.round\<close> of the double
  precision product, which carries the relative error of two roundings: with \<open>r\<close> the
  exact ratio times 100 and \<open>u = 2\<^sup>-\<^sup>5\<^sup>3\<close>, the percent lies between the nearest integers
  (ties up) to \<open>r (1 - u)\<^sup>2\<close> and to \<open>r (1 + u)\<^sup>2\<close>, as does the nearest integer to \<open>r\<close>
  itself; where the two bounds agree the percent is the nearest integer to \<open>r\<close>, ties up.
\<close>

theorem budgetStats_percent:
  "(\<not> js_gt0 (Prim (budgetTotal budgets fl)) \<longrightarrow> s_percent (budgetStats budgets items fl) = 0)
   \<and> (budgetTotal budgets fl = Num budget
        \<and> 0 \<le> expenseTotal items \<and> expenseTotal items < 2 ^ 53
        \<and> 0 < budget \<and> budget < 2 ^ 53 \<longrightarrow>
       (let r = of_int (100 * expenseTotal items) / of_int budget;
            lower = \<lfloor>r * (1 - unit_roundoff)\<^sup>2 + 1 / 2\<rfloor>;
            upper = \<lfloor>r * (1 + unit_roundoff)\<^sup>2 + 1 / 2\<rfloor>;
            exact = exact_percent (expenseTotal items) budget
        in lower \<le> s_percent (budgetStats budgets items fl)
           \<and> s_percent (budgetStats budgets items fl) \<le> upper
           \<and> lower \<le> exact \<and> exact \<le> upper
           \<and> (lower = upper \<longrightarrow> s_percent (budgetStats budgets items fl) = exact)))"
proof -
  have zero: "\<not> js_gt0 (Prim (budgetTotal budgets fl))
      \<longrightarrow> s_percent (budgetStats budgets items fl) = 0"
    by (cases "budgetTotal budgets fl") (simp_all add: budgetStats_def percent_def)
  {
    assume t: "budgetTotal budgets fl = Num budget"
      and e: "0 \<le> expenseTotal items" and b: "0 < budget"
    from t have p: "s_percent (budgetStats budgets items fl) = percent (expenseTotal items) budget"
      by (simp add: budgetStats_def)
    note percent_bracket [OF e b, folded p] exact_percent_bracket [OF e b]
  }
  then show ?thesis
    unfolding Let_def using zero by (intro conjI impI) (auto simp del: of_int_mult)
qed

text \<open>
  Claim C3 as stated fails at a tie: with a budget of 4000 and 2300 spent the exact ratio
  times 100 is 57.5, whose nearest integer with ties up is 58; the quotient in double
  precision is just below 0.575, the product just below 57.5, and the percent is 57.
\<close>

theorem budgetStats_percent_below_tie:
  "s_percent (budgetStats tie_budgets tie_items initial_filters) = 57
   \<and> expenseTotal tie_items = 2300 \<and> budgetTotal tie_budgets initial_filters = Num 4000
   \<and> \<lfloor>(2300 / 4000 * 100 :: rat) + 1 / 2\<rfloor> = 58"
  by code_simp

text \<open>The theorem on a budget of 10000 with 12000 spent: 120 percent, by both bounds.\<close>

theorem budgetStats_percent_witness:
  "s_percent (budgetStats (budgets_of example_budget_rows) example_spend
      (initial_filters\<lparr>f_category := [0x98DF, 0x8CBB]\<rparr>)) = 120
   \<and> s_percent (budgetStats [] example_spend initial_filters) = 0"
proof -
  let ?fl = "initial_filters\<lparr>f_category := [0x98DF, 0x8CBB]\<rparr>"
  let ?b = "budgets_of example_budget_rows"
  have e: "expenseTotal example_spend = 12000" by code_simp
  have b: "budgetTotal ?b ?fl = Num 10000" by code_simp
  have z: "budgetTotal [] initial_filters = Num 0" by code_simp
  have lo: "\<lfloor>(of_int (100 * 12000) / of_int 10000 :: rat) * (1 - unit_roundoff)\<^sup>2 + 1 / 2\<rfloor> = 120"
    by code_simp
  have hi: "\<lfloor>(of_int (100 * 12000) / of_int 10000 :: rat) * (1 + unit_roundoff)\<^sup>2 + 1 / 2\<rfloor> = 120"
    by code_simp
  have x: "exact_percent 12000 10000 = 120" by code_simp
  from budgetStats_percent [of ?b ?fl example_spend 10000]
    budgetStats_percent [of "[]" initial_filters example_spend 0]
  show ?thesis unfolding Let_def e b z lo hi x by simp
qed
end
